theory Spec2Isabelle
  imports Complex_Main "HOL-Library.Log_Nat"
begin

section \<open>Strings\<close>

text \<open>
  JavaScript strings are modelled as \<^typ>\<open>string\<close>. Only the separator \<open>/\<close> is ever
  inspected by the program, so the difference between UTF-16 code units and bytes does not
  matter here.
\<close>

text \<open>\<^verbatim>\<open>s.startsWith(p)\<close>\<close>

fun startsWith :: "string \<Rightarrow> string \<Rightarrow> bool" where
  "startsWith s [] = True"
| "startsWith [] (c # p) = False"
| "startsWith (d # s) (c # p) = (d = c \<and> startsWith s p)"

text \<open>
  \<^verbatim>\<open>s.split(sep)\<close> for a one-character separator: never empty, \<^verbatim>\<open>''.split(sep)\<close> is
  \<^verbatim>\<open>['']\<close>.
\<close>

fun splitOn :: "char \<Rightarrow> string \<Rightarrow> string list" where
  "splitOn sep [] = [[]]"
| "splitOn sep (c # cs) =
     (if c = sep then [] # splitOn sep cs
      else (case splitOn sep cs of [] \<Rightarrow> [[c]] | w # ws \<Rightarrow> (c # w) # ws))"

text \<open>\<^verbatim>\<open>s.split('/')\<close>\<close>

definition split :: "string \<Rightarrow> string list" where
  "split s = splitOn CHR ''/'' s"

text \<open>\<^verbatim>\<open>parts.join('/')\<close>\<close>

fun join :: "string list \<Rightarrow> string" where
  "join [] = []"
| "join [s] = s"
| "join (s # t # ts) = s @ CHR ''/'' # join (t # ts)"

text \<open>\<^verbatim>\<open>path.split('/').filter(Boolean)\<close>: the non-empty segments of a path.\<close>

definition pathParts :: "string \<Rightarrow> string list" where
  "pathParts path = filter (\<lambda>part. part \<noteq> []) (split path)"

section \<open>Path and formatting helpers (src/main.ts)\<close>

definition buildPath :: "string \<Rightarrow> string \<Rightarrow> string" where
  "buildPath name parentPath =
     (if parentPath = ''/'' then ''/'' @ name else parentPath @ ''/'' @ name)"

text \<open>
  \<^verbatim>\<open>parts.pop()\<close> on an empty array leaves it empty, as \<^const>\<open>butlast\<close> does.
\<close>

definition getParentPath :: "string \<Rightarrow> string" where
  "getParentPath path =
     (if path = ''/'' \<or> path = [] then ''/''
      else let parts = butlast (pathParts path)
           in if length parts = 0 then ''/'' else ''/'' @ join parts)"

text \<open>The decimal digits of a natural number, as number-to-string conversion prints them.\<close>

fun decimal :: "nat \<Rightarrow> string" where
  "decimal n =
     (if n < 10 then [''0123456789'' ! n]
      else decimal (n div 10) @ [''0123456789'' ! (n mod 10)])"

declare decimal.simps [simp del]

text \<open>
  \<^verbatim>\<open>x.toFixed(f)\<close> for a finite \<open>x \<ge> 0\<close>. From \<open>10\<^sup>2\<^sup>1\<close> on the result is the
  number-to-string conversion of \<open>x\<close>, which is in exponent notation there; it is the
  parameter \<open>toString\<close>. Below \<open>10\<^sup>2\<^sup>1\<close>, with \<open>n\<close> the integer for which \<open>n / 10\<^sup>f\<close> is
  closest to \<open>x\<close> (the larger one on a tie), the result is the digits of \<open>n\<close>, padded
  with zeros to at least \<open>f + 1\<close> digits, with a point before the last \<open>f\<close> digits when
  \<open>f\<close> is not zero.
\<close>

definition toFixed :: "(real \<Rightarrow> string) \<Rightarrow> real \<Rightarrow> nat \<Rightarrow> string" where
  "toFixed toString x f =
     (if 10 ^ 21 \<le> x then toString x
      else let n = nat \<lfloor>x * 10 ^ f + 1 / 2\<rfloor>;
               m = decimal n;
               m' = replicate (f + 1 - length m) CHR ''0'' @ m;
               k = length m' - f
           in if f = 0 then m else take k m' @ ''.'' @ drop k m')"

text \<open>
  \<^verbatim>\<open>formatSize\<close>, with the number-to-string conversion that \<^verbatim>\<open>toFixed\<close> falls back
  to. A size is a byte count: a double whose value is a natural number, and the model
  takes that number. The division by a power of 1024 is exact on doubles, so
  \<^verbatim>\<open>size / Math.pow(1024, index)\<close> is the real quotient. The one rounded operation is
  \<^verbatim>\<open>Math.log(size) / Math.log(1024)\<close>, which is read as the real quotient of the
  logarithms.
\<close>

definition formatSize :: "(real \<Rightarrow> string) \<Rightarrow> nat \<Rightarrow> string" where
  "formatSize toString sz =
     (let units = [''B'', ''KB'', ''MB'', ''GB''];
          index = (if sz = 0 then 0
                   else min (nat \<lfloor>ln (real sz) / ln 1024\<rfloor>) (length units - 1))
      in toFixed toString (real sz / 1024 ^ index) (if index \<noteq> 0 then 1 else 0) @
         units ! index)"

section \<open>The directory-listing endpoint (server)\<close>

subsection \<open>The platform: path.join and the filesystem\<close>

text \<open>
  Node's POSIX \<^verbatim>\<open>path.join\<close>, after its documentation: the non-empty arguments are
  joined with \<open>/\<close> and the result is normalised, which drops empty and \<open>.\<close> segments and
  resolves \<open>..\<close> segments against the segment before them; above the root of an absolute
  path a \<open>..\<close> segment is dropped. A trailing separator is kept.
\<close>

fun normalizeString :: "bool \<Rightarrow> string list \<Rightarrow> string list \<Rightarrow> string list" where
  "normalizeString allowAboveRoot [] res = res"
| "normalizeString allowAboveRoot (seg # segs) res =
     normalizeString allowAboveRoot segs
       (if seg = [] \<or> seg = ''.'' then res
        else if seg = ''..'' then
          (if res \<noteq> [] \<and> last res \<noteq> ''..'' then butlast res
           else if allowAboveRoot then res @ [''..''] else res)
        else res @ [seg])"

definition path_normalize :: "string \<Rightarrow> string" where
  "path_normalize path =
     (if path = [] then ''.''
      else let isAbsolute = (hd path = CHR ''/'');
               trailingSeparator = (last path = CHR ''/'');
               res = join (normalizeString (\<not> isAbsolute) (split path) [])
           in if res = [] then (if isAbsolute then ''/'' else if trailingSeparator then ''./'' else ''.'')
              else (if isAbsolute then ''/'' else []) @ res @ (if trailingSeparator then ''/'' else []))"

definition path_join :: "string \<Rightarrow> string \<Rightarrow> string" where
  "path_join a b =
     (let joined = (if a = [] then b else if b = [] then a else a @ ''/'' @ b)
      in if joined = [] then ''.'' else path_normalize joined)"

text \<open>
  What \<^verbatim>\<open>fs.stat\<close> resolves to (the fields the handler reads), and the filesystem as the
  handler sees it during one request: \<^verbatim>\<open>fs.stat\<close> and \<^verbatim>\<open>fs.readdir\<close>, where \<open>None\<close>
  is a rejected promise. The two are independent, so a name listed by \<open>readdir\<close> may
  fail to \<open>stat\<close> (a dangling symbolic link, a file removed in between).
\<close>

record Stats =
  isDirectory :: bool
  mtime :: string
  size' :: nat

record FileSystem =
  stat :: "string \<Rightarrow> Stats option"
  readdir :: "string \<Rightarrow> string list option"

text \<open>Every filesystem call the handler makes is recorded with its result.\<close>

datatype fsCall =
  StatCall string "Stats option"
| ReaddirCall string "string list option"

fun rejected :: "fsCall \<Rightarrow> bool" where
  "rejected (StatCall p r) = (r = None)"
| "rejected (ReaddirCall p r) = (r = None)"

subsection \<open>The handler of GET /api/files/*\<close>

datatype nodeType = File | Folder

text \<open>
  An entry of the listing: \<open>type\<close>, \<open>name\<close>, \<open>modified\<close>, \<open>size\<close> and \<open>children\<close>,
  the last being \<open>Some []\<close> for a directory and \<open>None\<close> (\<^verbatim>\<open>undefined\<close>, left out of
  the JSON) for anything else.
\<close>

datatype item =
  Item (itemType: nodeType) (itemName: string) (itemModified: string) (itemSize: nat)
       (itemChildren: "item list option")

datatype body = Error string | Items "item list"

record response =
  status :: nat
  json :: body

text \<open>The body of \<^verbatim>\<open>contents.map(async (name) => ...)\<close> once its \<open>stat\<close> has resolved.\<close>

definition mkItem :: "string \<Rightarrow> Stats \<Rightarrow> item" where
  "mkItem nm itemStats =
     Item (if isDirectory itemStats then Folder else File) nm (mtime itemStats)
          (size' itemStats) (if isDirectory itemStats then Some [] else None)"

text \<open>\<^verbatim>\<open>Promise.all\<close>: the list of the values, or a rejection when one of them rejects.\<close>

fun promiseAll :: "'a option list \<Rightarrow> 'a list option" where
  "promiseAll [] = Some []"
| "promiseAll (None # ps) = None"
| "promiseAll (Some v # ps) = map_option ((#) v) (promiseAll ps)"

text \<open>
  The handler, for a server started in directory \<open>dirname\<close> (\<^verbatim>\<open>__dirname\<close>) and the
  request parameter \<^verbatim>\<open>req.params[0]\<close>. It returns the response together with the
  filesystem calls made, in order. The mapped function of \<^verbatim>\<open>contents.map\<close> runs up to
  its \<open>stat\<close> for every name before any result is awaited, so every child is stat-ed
  even when one of the calls rejects. A rejection anywhere is caught by the one
  \<^verbatim>\<open>catch\<close>.
\<close>

definition apiFiles :: "string \<Rightarrow> FileSystem \<Rightarrow> string option \<Rightarrow> response \<times> fsCall list" where
  "apiFiles dirname fs params0 =
     (let requestedPath = (case params0 of None \<Rightarrow> [] | Some p \<Rightarrow> p);
          fullPath = path_join dirname requestedPath
      in if \<not> startsWith fullPath dirname
         then (\<lparr>status = 403, json = Error ''Access denied''\<rparr>, [])
         else
           (case stat fs fullPath of
              None \<Rightarrow>
                (\<lparr>status = 500, json = Error ''Internal server error''\<rparr>,
                 [StatCall fullPath None])
            | Some stats \<Rightarrow>
                if \<not> isDirectory stats
                then (\<lparr>status = 400, json = Error ''Not a directory''\<rparr>,
                      [StatCall fullPath (Some stats)])
                else
                  (case readdir fs fullPath of
                     None \<Rightarrow>
                       (\<lparr>status = 500, json = Error ''Internal server error''\<rparr>,
                        [StatCall fullPath (Some stats), ReaddirCall fullPath None])
                   | Some contents \<Rightarrow>
                       (let calls = [StatCall fullPath (Some stats),
                                     ReaddirCall fullPath (Some contents)] @
                              map (\<lambda>nm. StatCall (path_join fullPath nm)
                                            (stat fs (path_join fullPath nm))) contents
                        in case promiseAll
                                  (map (\<lambda>nm. map_option (mkItem nm)
                                                (stat fs (path_join fullPath nm))) contents) of
                             None \<Rightarrow>
                               (\<lparr>status = 500, json = Error ''Internal server error''\<rparr>,
                                calls)
                           | Some items \<Rightarrow> (\<lparr>status = 200, json = Items items\<rparr>, calls)))))"

text \<open>
  The notion the documentation of the handler uses: a path lies within a directory
  when it is the directory itself or continues it after a separator.
\<close>

definition withinDirectory :: "string \<Rightarrow> string \<Rightarrow> bool" where
  "withinDirectory p dir =
     (p = dir \<or> startsWith p (if dir \<noteq> [] \<and> last dir = CHR ''/'' then dir else dir @ ''/''))"

section \<open>The page (src/main.ts)\<close>

subsection \<open>The document\<close>

text \<open>
  The part of the DOM the program uses. An element has a tag, its class list, its
  \<open>style\<close> and \<open>data-path\<close> attributes, at most one click listener and its child nodes.
  A listener is the closure the program registers; the three closures of the program are
  told apart by what they capture:
  \<^item> \<open>OnClickSelect path\<close> is \<^verbatim>\<open>handleFolderSelect(state, path, 'tree')\<close>, of a tree item;
  \<^item> \<open>OnClickParent\<close> is
    \<^verbatim>\<open>handleFolderSelect(state, getParentPath(state.currentPath), 'list')\<close>, of the parent
    row;
  \<^item> \<open>OnClickItem name\<close> is
    \<^verbatim>\<open>handleFolderSelect(state, buildPath(name, state.currentPath), 'list')\<close>, of a folder
    row.
\<close>

datatype listener = OnClickSelect string | OnClickParent | OnClickItem string

datatype node =
  TextNode string
| Element string "string list" "string option" "string option" "listener option" "node list"

fun isElement :: "node \<Rightarrow> bool" where
  "isElement (TextNode t) = False"
| "isElement (Element tag cls sty dp lis kids) = True"

fun tagName :: "node \<Rightarrow> string" where
  "tagName (TextNode t) = []"
| "tagName (Element tag cls sty dp lis kids) = tag"

fun classList :: "node \<Rightarrow> string list" where
  "classList (TextNode t) = []"
| "classList (Element tag cls sty dp lis kids) = cls"

fun dataPath :: "node \<Rightarrow> string option" where
  "dataPath (TextNode t) = None"
| "dataPath (Element tag cls sty dp lis kids) = dp"

fun onClick :: "node \<Rightarrow> listener option" where
  "onClick (TextNode t) = None"
| "onClick (Element tag cls sty dp lis kids) = lis"

fun childNodes :: "node \<Rightarrow> node list" where
  "childNodes (TextNode t) = []"
| "childNodes (Element tag cls sty dp lis kids) = kids"

text \<open>\<^verbatim>\<open>element.children\<close>: the child nodes that are elements.\<close>

definition children :: "node \<Rightarrow> node list" where
  "children n = filter isElement (childNodes n)"

text \<open>\<^verbatim>\<open>node.textContent\<close>: the text of all descendants, in document order.\<close>

fun textContentOf :: "node \<Rightarrow> string" where
  "textContentOf (TextNode t) = t"
| "textContentOf (Element tag cls sty dp lis kids) = concat (map textContentOf kids)"

text \<open>Setters; on a text node they do nothing (the program never reaches one).\<close>

fun setClassList :: "string list \<Rightarrow> node \<Rightarrow> node" where
  "setClassList cls' (TextNode t) = TextNode t"
| "setClassList cls' (Element tag cls sty dp lis kids) = Element tag cls' sty dp lis kids"

fun setDataPath :: "string \<Rightarrow> node \<Rightarrow> node" where
  "setDataPath p (TextNode t) = TextNode t"
| "setDataPath p (Element tag cls sty dp lis kids) = Element tag cls sty (Some p) lis kids"

fun addEventListener :: "listener \<Rightarrow> node \<Rightarrow> node" where
  "addEventListener l (TextNode t) = TextNode t"
| "addEventListener l (Element tag cls sty dp lis kids) = Element tag cls sty dp (Some l) kids"

fun setChildNodes :: "node list \<Rightarrow> node \<Rightarrow> node" where
  "setChildNodes kids' (TextNode t) = TextNode t"
| "setChildNodes kids' (Element tag cls sty dp lis kids) = Element tag cls sty dp lis kids'"

text \<open>\<^verbatim>\<open>parent.append(...)\<close> and \<^verbatim>\<open>parent.appendChild(fragment)\<close>.\<close>

definition append' :: "node list \<Rightarrow> node \<Rightarrow> node" where
  "append' new n = setChildNodes (childNodes n @ new) n"

text \<open>\<^verbatim>\<open>element.innerHTML = ''\<close>\<close>

definition clearInnerHTML :: "node \<Rightarrow> node" where
  "clearInnerHTML n = setChildNodes [] n"

text \<open>\<^verbatim>\<open>classList.add\<close>, \<^verbatim>\<open>classList.remove\<close> and \<^verbatim>\<open>classList.toggle(token, force)\<close>.\<close>

definition classList_add :: "string \<Rightarrow> node \<Rightarrow> node" where
  "classList_add c n = (if c \<in> set (classList n) then n else setClassList (classList n @ [c]) n)"

definition classList_remove :: "string \<Rightarrow> node \<Rightarrow> node" where
  "classList_remove c n = setClassList (removeAll c (classList n)) n"

definition classList_toggle :: "string \<Rightarrow> bool \<Rightarrow> node \<Rightarrow> node" where
  "classList_toggle c force n = (if force then classList_add c n else classList_remove c n)"

text \<open>
  A reference to a node below a root is the list of child indices that leads to it.
  \<open>nodeAt\<close> follows a reference and \<open>updateAt\<close> mutates the node it names; a reference
  that names no node is \<open>None\<close>, respectively changes nothing.
\<close>

fun nodeAt :: "node \<Rightarrow> nat list \<Rightarrow> node option" where
  "nodeAt n [] = Some n"
| "nodeAt n (i # pos) =
     (if i < length (childNodes n) then nodeAt (childNodes n ! i) pos else None)"

fun updateAt :: "nat list \<Rightarrow> (node \<Rightarrow> node) \<Rightarrow> node \<Rightarrow> node" where
  "updateAt [] f n = f n"
| "updateAt (i # pos) f n =
     (if i < length (childNodes n)
      then setChildNodes ((childNodes n) [i := updateAt pos f (childNodes n ! i)]) n
      else n)"

text \<open>
  \<^verbatim>\<open>root.querySelector(sel)\<close>: the first element in document order, among the
  descendants of the root, that matches; \<open>queryIn\<close> searches a list of siblings and what
  lies below them, and returns the reference relative to their parent.
\<close>

fun shift :: "nat list option \<Rightarrow> nat list option" where
  "shift None = None"
| "shift (Some []) = Some []"
| "shift (Some (i # pos)) = Some (Suc i # pos)"

fun queryIn :: "(node \<Rightarrow> bool) \<Rightarrow> node list \<Rightarrow> nat list option" where
  "queryIn sel [] = None"
| "queryIn sel (TextNode t # ns) = shift (queryIn sel ns)"
| "queryIn sel (Element tag cls sty dp lis kids # ns) =
     (if sel (Element tag cls sty dp lis kids) then Some [0]
      else (case queryIn sel kids of
              Some pos \<Rightarrow> Some (0 # pos)
            | None \<Rightarrow> shift (queryIn sel ns)))"

definition querySelector :: "(node \<Rightarrow> bool) \<Rightarrow> node \<Rightarrow> nat list option" where
  "querySelector sel el = queryIn sel (childNodes el)"

text \<open>
  \<^verbatim>\<open>root.querySelectorAll(sel).forEach(f)\<close> for a selector that reads the element alone
  and a callback that changes nothing but the matched element and what lies below it.
  The list of matches is static: the selector is applied to the elements as they are
  before any callback runs, and every match is replaced by what the callback makes of
  it.
\<close>

fun forEachIn :: "(node \<Rightarrow> bool) \<Rightarrow> (node \<Rightarrow> node) \<Rightarrow> node list \<Rightarrow> node list" where
  "forEachIn sel f [] = []"
| "forEachIn sel f (TextNode t # ns) = TextNode t # forEachIn sel f ns"
| "forEachIn sel f (Element tag cls sty dp lis kids # ns) =
     (let e = Element tag cls sty dp lis (forEachIn sel f kids)
      in (if sel (Element tag cls sty dp lis kids) then f e else e) # forEachIn sel f ns)"

definition querySelectorAll_forEach :: "(node \<Rightarrow> bool) \<Rightarrow> (node \<Rightarrow> node) \<Rightarrow> node \<Rightarrow> node" where
  "querySelectorAll_forEach sel f el = setChildNodes (forEachIn sel f (childNodes el)) el"

text \<open>The selectors of the program: \<^verbatim>\<open>.c\<close>, \<^verbatim>\<open>.c.d\<close>, \<^verbatim>\<open>td\<close>.\<close>

definition byClass :: "string \<Rightarrow> node \<Rightarrow> bool" where
  "byClass c n = (isElement n \<and> c \<in> set (classList n))"

definition byClasses :: "string \<Rightarrow> string \<Rightarrow> node \<Rightarrow> bool" where
  "byClasses c d n = (isElement n \<and> c \<in> set (classList n) \<and> d \<in> set (classList n))"

definition byTag :: "string \<Rightarrow> node \<Rightarrow> bool" where
  "byTag t n = (isElement n \<and> tagName n = t)"

subsection \<open>Data, environment and state\<close>

text \<open>An entry of a listing as the page reads it; \<open>size\<close> is optional.\<close>

record ITreeNode =
  type' :: nodeType
  name :: string
  modified :: string
  size' :: "nat option"

text \<open>
  What \<^verbatim>\<open>response.json()\<close> resolves to. The page never checks the status of a
  response, and the endpoint answers an error with an object, so the value need not be
  an array.
\<close>

datatype jsonData = Listing "ITreeNode list" | NotArray

datatype error = TypeError | SyntaxError | Rejected

datatype outcome = Completed | Threw error

text \<open>
  The environment of the page:
  \<^item> \<open>respond sent path\<close> is what \<^verbatim>\<open>fetch('/api/files' + path)\<close> followed by
    \<^verbatim>\<open>response.json()\<close> yields after the requests \<open>sent\<close>; \<open>None\<close> is a rejection;
  \<^item> \<open>toLocaleString\<close> is \<^verbatim>\<open>new Date(modified).toLocaleString()\<close>;
  \<^item> \<open>numberToString\<close> is the number-to-string conversion, used by \<^verbatim>\<open>toFixed\<close> from
    \<open>10\<^sup>2\<^sup>1\<close> on;
  \<^item> \<open>selectUnescaped path el\<close> is the result of
    \<^verbatim>\<open>el.querySelector('[data-path="' + path + '"]')\<close> for a path that contains a double
    quote, a backslash, a line break or a null character, where the selector text is not
    the quoted path:
    \<open>None\<close> when the text is no valid selector (a \<^verbatim>\<open>SyntaxError\<close> is thrown), otherwise
    the match. It is left to the selector parser of the browser.
\<close>

record Env =
  respond :: "string list \<Rightarrow> string \<Rightarrow> jsonData option"
  toLocaleString :: "string \<Rightarrow> string"
  numberToString :: "real \<Rightarrow> string"
  selectUnescaped :: "string \<Rightarrow> node \<Rightarrow> nat list option option"

text \<open>
  \<^verbatim>\<open>ExplorerState\<close>. The set of expanded folders is the list of its members in
  insertion order, which is the order a \<^verbatim>\<open>Set\<close> is iterated in. The last field is not
  in the source: it records the paths requested from the endpoint so far, oldest first,
  so that the requests a call makes can be read off its result.
\<close>

record ExplorerState =
  expandedFolders :: "string list"
  currentPath :: string
  treeView :: node
  listView :: node
  fetched :: "string list"

text \<open>\<^verbatim>\<open>set.has(x)\<close>, \<^verbatim>\<open>set.add(x)\<close>, \<^verbatim>\<open>set.delete(x)\<close>\<close>

definition Set_has :: "string list \<Rightarrow> string \<Rightarrow> bool" where
  "Set_has xs x = (x \<in> set xs)"

definition Set_add :: "string \<Rightarrow> string list \<Rightarrow> string list" where
  "Set_add x xs = (if x \<in> set xs then xs else xs @ [x])"

definition Set_delete :: "string \<Rightarrow> string list \<Rightarrow> string list" where
  "Set_delete x xs = removeAll x xs"

text \<open>Sequencing of two steps: a throw ends the sequence with the state reached.\<close>

fun andThen :: "outcome \<times> 's \<Rightarrow> ('s \<Rightarrow> outcome \<times> 's) \<Rightarrow> outcome \<times> 's" where
  "andThen (Completed, s) k = k s"
| "andThen (Threw e, s) k = (Threw e, s)"

text \<open>
  \<^verbatim>\<open>el.querySelector(`[data-path="${path}"]`)\<close>. The path is put between the quotes
  unescaped. Without a double quote, a backslash, a line break (line feed, form feed,
  carriage return) or a null character in it, the selector matches the elements whose
  \<open>data-path\<close> is the path. Otherwise the environment decides; \<open>None\<close> is a thrown
  \<^verbatim>\<open>SyntaxError\<close>.
\<close>

definition cssPlain :: "string \<Rightarrow> bool" where
  "cssPlain path =
     list_all
       (\<lambda>c. c \<noteq> CHR 0x22 \<and> c \<noteq> CHR 0x5C \<and> c \<noteq> CHR 0x0A \<and> c \<noteq> CHR 0x0C \<and> c \<noteq> CHR 0x0D \<and>
            c \<noteq> CHR 0x00)
       path"

definition querySelectorDataPath :: "Env \<Rightarrow> string \<Rightarrow> node \<Rightarrow> nat list option option" where
  "querySelectorDataPath env path el =
     (if cssPlain path
      then Some (querySelector (\<lambda>n. isElement n \<and> dataPath n = Some path) el)
      else (case selectUnescaped env path el of
              None \<Rightarrow> None
            | Some None \<Rightarrow> Some None
            | Some (Some pos) \<Rightarrow>
                (if pos \<noteq> [] \<and> (case nodeAt el pos of None \<Rightarrow> False | Some n \<Rightarrow> isElement n)
                 then Some (Some pos) else Some None)))"

subsection \<open>Creating elements\<close>

record IElementProps =
  className :: "string option"
  textContent :: "string option"
  style :: "string option"

definition noProps :: IElementProps where
  "noProps = \<lparr>className = None, textContent = None, style = None\<rparr>"

text \<open>A property that is absent or the empty string is falsy and is not set.\<close>

definition createElement :: "string \<Rightarrow> IElementProps \<Rightarrow> node" where
  "createElement tag props =
     Element tag
       (case className props of
          None \<Rightarrow> []
        | Some c \<Rightarrow> filter (\<lambda>w. w \<noteq> []) (splitOn CHR '' '' c))
       (case style props of None \<Rightarrow> None | Some st \<Rightarrow> if st = [] then None else Some st)
       None None
       (case textContent props of
          None \<Rightarrow> []
        | Some t \<Rightarrow> if t = [] then [] else [TextNode t])"

definition createFolderIcon :: "bool \<Rightarrow> node" where
  "createFolderIcon isExpanded =
     (let icon = createElement ''span'' (noProps\<lparr>className := Some ''folder-icon''\<rparr>)
      in if isExpanded then classList_add ''open'' icon else icon)"

definition createFileIcon :: node where
  "createFileIcon = createElement ''span'' (noProps\<lparr>className := Some ''file-icon''\<rparr>)"

definition createIcon :: "nodeType \<Rightarrow> bool \<Rightarrow> node" where
  "createIcon ty isExpanded = (if ty = Folder then createFolderIcon isExpanded else createFileIcon)"

text \<open>\<^verbatim>\<open>v || '--'\<close>\<close>

definition orDashes :: "string option \<Rightarrow> string" where
  "orDashes v = (case v of None \<Rightarrow> ''--'' | Some t \<Rightarrow> if t = [] then ''--'' else t)"

definition createListRow ::
  "node \<Rightarrow> string \<Rightarrow> string option \<Rightarrow> string option \<Rightarrow> listener option \<Rightarrow> node" where
  "createListRow icon text' modified' size'' onClick' =
     (let row = createElement ''tr'' (noProps\<lparr>className := Some ''list-item''\<rparr>);
          nameCell = append' [icon, TextNode text'] (createElement ''td'' noProps);
          row = append' [nameCell,
                         createElement ''td'' (noProps\<lparr>textContent := Some (orDashes modified')\<rparr>),
                         createElement ''td'' (noProps\<lparr>textContent := Some (orDashes size'')\<rparr>)]
                  row
      in case onClick' of None \<Rightarrow> row | Some l \<Rightarrow> addEventListener l row)"

subsection \<open>The list view\<close>

text \<open>The row of one entry: the body of \<^verbatim>\<open>data.forEach\<close> in \<^verbatim>\<open>updateListView\<close>.\<close>

definition listRow :: "Env \<Rightarrow> ExplorerState \<Rightarrow> ITreeNode \<Rightarrow> node" where
  "listRow env s item =
     (let icon = createIcon (type' item)
                   (type' item = Folder \<and>
                    Set_has (expandedFolders s) (buildPath (name item) (currentPath s)))
      in createListRow icon (name item)
           (Some (toLocaleString env (modified item)))
           (Some (if type' item = File
                  then formatSize (numberToString env)
                         (case size' item of None \<Rightarrow> 0 | Some n \<Rightarrow> n)
                  else ''--''))
           (if type' item = Folder then Some (OnClickItem (name item)) else None))"

text \<open>
  \<^verbatim>\<open>updateListView\<close>. The rows are collected in a fragment; \<^verbatim>\<open>data.forEach\<close> throws a
  \<^verbatim>\<open>TypeError\<close> when the data is not an array, before the view is touched.
\<close>

definition updateListView :: "Env \<Rightarrow> ExplorerState \<Rightarrow> jsonData \<Rightarrow> outcome \<times> ExplorerState" where
  "updateListView env s data =
     (let fragment =
            (if currentPath s \<noteq> ''/''
             then [createListRow (createFolderIcon False) ''...'' None None (Some OnClickParent)]
             else [])
      in case data of
           NotArray \<Rightarrow> (Threw TypeError, s)
         | Listing items \<Rightarrow>
             (let fragment = fragment @ map (listRow env s) items
              in (Completed, s\<lparr>listView := append' fragment (clearInnerHTML (listView s))\<rparr>)))"

subsection \<open>The tree view\<close>

text \<open>The element of one entry: the body of \<^verbatim>\<open>data.forEach\<close> in \<^verbatim>\<open>updateTreeView\<close>.\<close>

definition treeItem :: "nat \<Rightarrow> string \<Rightarrow> ITreeNode \<Rightarrow> node" where
  "treeItem level parentPath item =
     (let itemPath = buildPath (name item) parentPath;
          div' = setDataPath itemPath
                   (createElement ''div''
                      \<lparr>className = Some ''tree-item'', textContent = None,
                       style = Some (''--level: '' @ decimal (level + 1))\<rparr>);
          icon = createIcon (type' item) False;
          itemContent = append' [icon, createElement ''span'' (noProps\<lparr>textContent := Some (name item)\<rparr>)]
                          (createElement ''span'' noProps)
      in if type' item = Folder
         then (let childContainer = createElement ''div'' (noProps\<lparr>className := Some ''tree-children''\<rparr>)
               in append' [addEventListener (OnClickSelect itemPath) itemContent, childContainer] div')
         else append' [itemContent] div')"

text \<open>The root folder element built at level 0, with its empty child container.\<close>

definition rootFolder :: node where
  "rootFolder =
     (let rootIcon = createFolderIcon True;
          rootDiv = createElement ''div''
                      \<lparr>className = Some ''tree-item root-folder open'', textContent = None,
                       style = Some ''--level: 0''\<rparr>;
          rootContent = append' [rootIcon, createElement ''span'' (noProps\<lparr>textContent := Some ''Files''\<rparr>)]
                          (createElement ''span'' noProps);
          childContainer = createElement ''div'' (noProps\<lparr>className := Some ''tree-children''\<rparr>)
      in setDataPath ''/''
           (append' [addEventListener (OnClickSelect ''/'') rootContent, childContainer] rootDiv))"

text \<open>
  \<^verbatim>\<open>updateTreeView(state, data, parentElement, level, parentPath)\<close>. The parent element
  is a reference into the tree view (the empty reference is the view itself, the
  default). At level 0 the parent is emptied and receives the root folder, whose child
  container, the second child of the parent's only child, becomes the parent of the
  entries. Here too a value that is no array throws at \<^verbatim>\<open>data.forEach\<close>. The early
  return for a missing parent element has no counterpart: every caller passes an element.
\<close>

definition updateTreeView ::
  "ExplorerState \<Rightarrow> jsonData \<Rightarrow> nat list \<Rightarrow> nat \<Rightarrow> string \<Rightarrow> outcome \<times> ExplorerState" where
  "updateTreeView s data parentElement level parentPath =
     (let s1 = (if level = 0
                then s\<lparr>treeView := updateAt parentElement
                                      (\<lambda>e. append' [rootFolder] (clearInnerHTML e)) (treeView s)\<rparr>
                else s);
          parentElement = (if level = 0 then parentElement @ [0, 1] else parentElement);
          parentPath = (if level = 0 then ''/'' else parentPath)
      in case data of
           NotArray \<Rightarrow> (Threw TypeError, s1)
         | Listing items \<Rightarrow>
             (Completed,
              s1\<lparr>treeView := updateAt parentElement
                                (append' (map (treeItem level parentPath) items)) (treeView s1)\<rparr>))"

text \<open>\<^verbatim>\<open>updateListViewExpansion\<close>\<close>

definition updateListViewExpansion :: "ExplorerState \<Rightarrow> ExplorerState" where
  "updateListViewExpansion s =
     s\<lparr>listView :=
         querySelectorAll_forEach (byClass ''list-item'')
           (\<lambda>item.
              case querySelector (byTag ''td'') item of
                None \<Rightarrow> item
              | Some nc \<Rightarrow>
                  (case nodeAt item nc of
                     None \<Rightarrow> item
                   | Some nameCell \<Rightarrow>
                       (let itemPath = buildPath (textContentOf nameCell) (currentPath s)
                        in case querySelector (byClass ''folder-icon'') nameCell of
                             None \<Rightarrow> item
                           | Some ic \<Rightarrow>
                               updateAt (nc @ ic)
                                 (classList_toggle ''open'' (Set_has (expandedFolders s) itemPath))
                                 item)))
           (listView s)\<rparr>"

subsection \<open>Events\<close>

text \<open>
  \<^verbatim>\<open>removeExpandedFolder\<close>. The loop visits the members of the set in insertion order;
  deleting the member being visited does not disturb the iteration, so every member of
  the set at the start is visited.
\<close>

fun removeLoop :: "string list \<Rightarrow> string \<Rightarrow> string list \<Rightarrow> string list" where
  "removeLoop [] path folders = folders"
| "removeLoop (expandedPath # rest) path folders =
     removeLoop rest path
       (if expandedPath = path \<or> startsWith expandedPath (path @ ''/'')
        then Set_delete expandedPath folders else folders)"

definition removeExpandedFolder :: "ExplorerState \<Rightarrow> string \<Rightarrow> ExplorerState" where
  "removeExpandedFolder s path =
     s\<lparr>expandedFolders := removeLoop (expandedFolders s) path (expandedFolders s)\<rparr>"

text \<open>\<^verbatim>\<open>fetchFolderContents\<close>: the answer of the environment, and the request recorded.\<close>

definition fetchFolderContents :: "Env \<Rightarrow> ExplorerState \<Rightarrow> string \<Rightarrow> jsonData option \<times> ExplorerState" where
  "fetchFolderContents env s path = (respond env (fetched s) path, s\<lparr>fetched := fetched s @ [path]\<rparr>)"

text \<open>
  \<^verbatim>\<open>toggleFolderExpansion(state, path, forceState)\<close>; \<open>forceState\<close> is \<open>None\<close> when the
  argument is left out. The icon and the child container are looked up below the tree
  item, so their references are relative to it.
\<close>

definition toggleFolderExpansion ::
  "Env \<Rightarrow> ExplorerState \<Rightarrow> string \<Rightarrow> bool option \<Rightarrow> outcome \<times> ExplorerState" where
  "toggleFolderExpansion env s path forceState =
     (if path = ''/'' then (Completed, s)
      else
        let isCurrentlyExpanded = Set_has (expandedFolders s) path;
            shouldExpand = (case forceState of Some b \<Rightarrow> b | None \<Rightarrow> \<not> isCurrentlyExpanded);
            s = (if shouldExpand then s\<lparr>expandedFolders := Set_add path (expandedFolders s)\<rparr>
                 else removeExpandedFolder s path)
        in case querySelectorDataPath env path (treeView s) of
             None \<Rightarrow> (Threw SyntaxError, s)
           | Some None \<Rightarrow> (Completed, updateListViewExpansion s)
           | Some (Some ti) \<Rightarrow>
               (case nodeAt (treeView s) ti of
                  None \<Rightarrow> (Completed, updateListViewExpansion s)
                | Some item \<Rightarrow>
                    (let icon = querySelector (byClass ''folder-icon'') item;
                         childContainer = querySelector (byClass ''tree-children'') item;
                         s = s\<lparr>treeView := updateAt ti (classList_toggle ''open'' shouldExpand) (treeView s)\<rparr>;
                         s = (case icon of
                                None \<Rightarrow> s
                              | Some ic \<Rightarrow>
                                  s\<lparr>treeView := updateAt (ti @ ic) (classList_toggle ''open'' shouldExpand)
                                                   (treeView s)\<rparr>)
                     in case childContainer of
                          None \<Rightarrow> (Completed, updateListViewExpansion s)
                        | Some cc \<Rightarrow>
                            (if shouldExpand \<and>
                                (case nodeAt (treeView s) (ti @ cc) of
                                   None \<Rightarrow> False
                                 | Some c \<Rightarrow> length (children c) = 0)
                             then
                               (case fetchFolderContents env s path of
                                  (None, s) \<Rightarrow> (Threw Rejected, s)
                                | (Some data, s) \<Rightarrow>
                                    andThen
                                      (updateTreeView s data (ti @ cc) (length (pathParts path)) path)
                                      (\<lambda>s. (Completed, updateListViewExpansion s)))
                             else if \<not> shouldExpand
                             then (Completed,
                                   updateListViewExpansion
                                     (s\<lparr>treeView := updateAt (ti @ cc) clearInnerHTML (treeView s)\<rparr>))
                             else (Completed, updateListViewExpansion s)))))"

text \<open>\<^verbatim>\<open>updateSelection\<close>; \<^verbatim>\<open>path.split('/').pop()\<close> is the last piece of the split.\<close>

definition updateSelection :: "Env \<Rightarrow> ExplorerState \<Rightarrow> string \<Rightarrow> outcome \<times> ExplorerState" where
  "updateSelection env s path =
     (let s = s\<lparr>treeView := querySelectorAll_forEach (byClasses ''tree-item'' ''selected'')
                               (classList_remove ''selected'') (treeView s)\<rparr>;
          s = s\<lparr>listView := querySelectorAll_forEach (byClasses ''list-item'' ''selected'')
                               (classList_remove ''selected'') (listView s)\<rparr>
      in case querySelectorDataPath env path (treeView s) of
           None \<Rightarrow> (Threw SyntaxError, s)
         | Some found \<Rightarrow>
             (let s = (case found of
                         None \<Rightarrow> s
                       | Some ti \<Rightarrow> s\<lparr>treeView := updateAt ti (classList_add ''selected'') (treeView s)\<rparr>);
                  fileName = last (split path)
              in (Completed,
                  s\<lparr>listView :=
                      querySelectorAll_forEach (byClass ''list-item'')
                        (\<lambda>item.
                           case querySelector (byTag ''td'') item of
                             None \<Rightarrow> item
                           | Some nc \<Rightarrow>
                               (case nodeAt item nc of
                                  None \<Rightarrow> item
                                | Some nameCell \<Rightarrow>
                                    if textContentOf nameCell = fileName
                                    then classList_add ''selected'' item else item))
                        (listView s)\<rparr>)))"

text \<open>\<^verbatim>\<open>expandTreeToPath\<close>: the loop over the parts, and the function.\<close>

fun expandLoop :: "Env \<Rightarrow> ExplorerState \<Rightarrow> string \<Rightarrow> string list \<Rightarrow> outcome \<times> ExplorerState" where
  "expandLoop env s currentPath' [] = (Completed, s)"
| "expandLoop env s currentPath' (part # rest) =
     (let currentPath' = buildPath part currentPath'
      in andThen (toggleFolderExpansion env s currentPath' (Some True))
           (\<lambda>s. expandLoop env s currentPath' rest))"

definition expandTreeToPath :: "Env \<Rightarrow> ExplorerState \<Rightarrow> string \<Rightarrow> outcome \<times> ExplorerState" where
  "expandTreeToPath env s path = expandLoop env s [] (pathParts path)"

datatype source = Tree | List

text \<open>\<^verbatim>\<open>handleFolderSelect\<close>\<close>

definition handleFolderSelect ::
  "Env \<Rightarrow> ExplorerState \<Rightarrow> string \<Rightarrow> source \<Rightarrow> outcome \<times> ExplorerState" where
  "handleFolderSelect env s path src =
     (let previousPath = currentPath s;
          isSamePath = (previousPath = path);
          s = s\<lparr>currentPath := path\<rparr>
      in andThen
           (if src = Tree \<or> \<not> isSamePath
            then (case fetchFolderContents env s path of
                    (None, s) \<Rightarrow> (Threw Rejected, s)
                  | (Some data, s) \<Rightarrow> updateListView env s data)
            else (Completed, s))
           (\<lambda>s. andThen
                  (if src = List then expandTreeToPath env s path else (Completed, s))
                  (\<lambda>s. andThen
                         (if src = Tree \<or> isSamePath
                          then toggleFolderExpansion env s path None else (Completed, s))
                         (\<lambda>s. updateSelection env s path))))"

text \<open>\<^verbatim>\<open>createInitialState\<close>, with no request sent yet, and \<^verbatim>\<open>init\<close>.\<close>

definition createInitialState :: "node \<Rightarrow> node \<Rightarrow> ExplorerState" where
  "createInitialState treeView' listView' =
     \<lparr>expandedFolders = [''/''], currentPath = ''/'', treeView = treeView',
      listView = listView', fetched = []\<rparr>"

definition init :: "Env \<Rightarrow> ExplorerState \<Rightarrow> outcome \<times> ExplorerState" where
  "init env s =
     (case fetchFolderContents env s ''/'' of
        (None, s) \<Rightarrow> (Threw Rejected, s)
      | (Some data, s) \<Rightarrow>
          andThen (updateTreeView s data [] 0 []) (\<lambda>s. updateListView env s data))"

section \<open>Paths of folders\<close>

text \<open>
  The paths of folders as the page passes them around: \<open>/\<close> itself, or \<open>/\<close> followed by
  one or more non-empty segments separated by \<open>/\<close>. A path has this form when joining
  its non-empty segments gives it back.
\<close>

definition normalPath :: "string \<Rightarrow> bool" where
  "normalPath p = (p = ''/'' \<or> (pathParts p \<noteq> [] \<and> p = ''/'' @ join (pathParts p)))"

section \<open>Reading the views\<close>

text \<open>
  The label of a row of the list view: the text of its first cell, as
  \<^verbatim>\<open>updateSelection\<close> and \<^verbatim>\<open>updateListViewExpansion\<close> read it.
\<close>

definition rowLabel :: "node \<Rightarrow> string" where
  "rowLabel row =
     (case querySelector (byTag ''td'') row of
        None \<Rightarrow> []
      | Some nc \<Rightarrow> (case nodeAt row nc of None \<Rightarrow> [] | Some nameCell \<Rightarrow> textContentOf nameCell))"

text \<open>
  The states the page can be in: the initial state, and what the operations make of a
  reachable state, with \<^verbatim>\<open>handleFolderSelect\<close> and \<^verbatim>\<open>toggleFolderExpansion\<close> applied
  to paths that \<^verbatim>\<open>buildPath\<close> produces (the root is \<^verbatim>\<open>buildPath('', '/')\<close>). A call
  that throws leaves the state it had reached. Calls run one after the other.
\<close>

inductive reachable :: "Env \<Rightarrow> ExplorerState \<Rightarrow> bool" for env :: Env where
  created: "reachable env (createInitialState treeView' listView')"
| initialised: "reachable env s \<Longrightarrow> reachable env (snd (init env s))"
| selected: "reachable env s \<Longrightarrow>
     reachable env (snd (handleFolderSelect env s (buildPath nm parentPath) src))"
| toggled: "reachable env s \<Longrightarrow>
     reachable env (snd (toggleFolderExpansion env s (buildPath nm parentPath) forceState))"


text \<open>
  The child container of the tree item of a path, as \<^verbatim>\<open>toggleFolderExpansion\<close> looks it
  up: the first element with class \<open>tree-children\<close> below the first element of the tree
  view whose \<open>data-path\<close> is the path. \<open>emptyAt\<close> says that a reference names an
  element without child elements, and \<open>childCount\<close> is the number of child elements of
  what a reference names.
\<close>

definition emptyAt :: "node \<Rightarrow> nat list \<Rightarrow> bool" where
  "emptyAt el pos = (case nodeAt el pos of None \<Rightarrow> False | Some c \<Rightarrow> length (children c) = 0)"

definition treeChildContainer :: "ExplorerState \<Rightarrow> string \<Rightarrow> nat list option" where
  "treeChildContainer s path =
     (case querySelector (\<lambda>n. isElement n \<and> dataPath n = Some path) (treeView s) of
        None \<Rightarrow> None
      | Some ti \<Rightarrow>
          (case nodeAt (treeView s) ti of
             None \<Rightarrow> None
           | Some item \<Rightarrow>
               (case querySelector (byClass ''tree-children'') item of
                  None \<Rightarrow> None
                | Some cc \<Rightarrow> Some (ti @ cc))))"

definition childCount :: "node \<Rightarrow> nat list \<Rightarrow> nat option" where
  "childCount el pos = map_option (\<lambda>c. length (children c)) (nodeAt el pos)"

section \<open>Example inputs\<close>

text \<open>Concrete states, environments and filesystems at which the results below are run.\<close>

definition emptyDiv :: node where
  "emptyDiv = Element ''div'' [] None None None []"

text \<open>A state in which \<open>/parent\<close>, one of its children and its sibling \<open>/parent2\<close> are expanded.\<close>

definition stateParents :: ExplorerState where
  "stateParents =
     \<lparr>expandedFolders = [''/'', ''/parent'', ''/parent/child1'', ''/parent2''],
      currentPath = ''/'', treeView = emptyDiv, listView = emptyDiv, fetched = []\<rparr>"

text \<open>
  A filesystem around a project directory \<open>/srv/app\<close>: the project holds a directory
  \<open>docs\<close>, a file, and a directory \<open>broken\<close> whose only entry cannot be stat-ed; next to
  the project lies the directory \<open>/srv/app-secret\<close>.
\<close>

definition dirStats :: Stats where
  "dirStats = \<lparr>isDirectory = True, mtime = ''2024-01-01T00:00:00.000Z'', size' = 4096\<rparr>"

definition fileStats :: Stats where
  "fileStats = \<lparr>isDirectory = False, mtime = ''2024-02-02T00:00:00.000Z'', size' = 1536\<rparr>"

definition fsExample :: FileSystem where
  "fsExample =
     \<lparr>stat = (\<lambda>p. if p \<in> {''/srv/app'', ''/srv/app/docs'', ''/srv/app/docs/sub'',
                              ''/srv/app/broken'', ''/srv/app-secret''} then Some dirStats
                    else if p \<in> {''/srv/app/docs/a.txt'', ''/srv/app/package.json'',
                                   ''/srv/app-secret/key.pem''} then Some fileStats
                    else None),
      readdir = (\<lambda>p. if p = ''/srv/app'' then Some [''docs'', ''broken'', ''package.json'']
                       else if p = ''/srv/app/docs'' then Some [''a.txt'', ''sub'']
                       else if p = ''/srv/app/broken'' then Some [''link'']
                       else if p = ''/srv/app-secret'' then Some [''key.pem'']
                       else None)\<rparr>"

text \<open>
  An environment whose endpoint lists a folder and a file at the root and nothing below,
  prints dates as they are and every large number as \<open>1e+21\<close>, and throws on every
  selector with an unescaped special character; and a state whose current path is
  \<open>/docs\<close>.
\<close>

definition envListing :: Env where
  "envListing =
     \<lparr>respond = (\<lambda>sent path.
         if path = ''/''
         then Some (Listing [\<lparr>type' = Folder, name = ''docs'', modified = ''m1'', size' = Some 4096\<rparr>,
                             \<lparr>type' = File, name = ''a.txt'', modified = ''m2'', size' = Some 1536\<rparr>])
         else Some (Listing [])),
      toLocaleString = (\<lambda>m. m),
      numberToString = (\<lambda>x. ''1e+21''),
      selectUnescaped = (\<lambda>path el. None)\<rparr>"

definition stateDocs :: ExplorerState where
  "stateDocs = \<lparr>expandedFolders = [''/''], currentPath = ''/docs'', treeView = emptyDiv,
                listView = emptyDiv, fetched = []\<rparr>"

text \<open>The initial state after \<open>/docs\<close> was toggled twice.\<close>

definition stateToggledTwice :: ExplorerState where
  "stateToggledTwice =
     snd (toggleFolderExpansion envListing
            (snd (toggleFolderExpansion envListing (createInitialState emptyDiv emptyDiv)
                    (buildPath ''docs'' ''/'') None))
            (buildPath ''docs'' ''/'') None)"

text \<open>The initial state over two empty views.\<close>

definition stateInitial :: ExplorerState where
  "stateInitial = createInitialState emptyDiv emptyDiv"

text \<open>
  A folder whose name holds a double quote, the tree view that shows it below the root,
  and the state after \<^verbatim>\<open>init\<close> against the example endpoint.
\<close>

definition quoteName :: string where
  "quoteName = ''a'' @ [CHR 0x22] @ ''b''"

definition stateQuote :: ExplorerState where
  "stateQuote =
     snd (updateTreeView stateInitial
            (Listing [\<lparr>type' = Folder, name = quoteName, modified = ''m'', size' = None\<rparr>])
            [] 0 [])"

definition stateListed :: ExplorerState where
  "stateListed = snd (init envListing stateInitial)"


section \<open>Results: paths\<close>

lemma splitOn_no_sep: "sep \<notin> set s \<Longrightarrow> splitOn sep s = [s]"
  by (induction s) auto

lemma splitOn_append: "sep \<notin> set s \<Longrightarrow> splitOn sep (s @ sep # t) = s # splitOn sep t"
  by (induction s) auto

lemma split_join:
  "\<forall>s \<in> set segs. CHR ''/'' \<notin> set s \<Longrightarrow> segs \<noteq> [] \<Longrightarrow> split (join segs) = segs"
proof (induction segs rule: join.induct)
  case 1
  then show ?case by simp
next
  case (2 s)
  then show ?case by (simp add: split_def splitOn_no_sep)
next
  case (3 s t ts)
  then show ?case by (simp add: split_def splitOn_append)
qed

lemma join_snoc: "segs \<noteq> [] \<Longrightarrow> join (segs @ [nm]) = join segs @ ''/'' @ nm"
  by (induction segs rule: join.induct) auto

lemma join_eq_Nil: "join segs = [] \<Longrightarrow> \<forall>s \<in> set segs. s \<noteq> [] \<Longrightarrow> segs = []"
  by (induction segs rule: join.induct) auto

lemma pathParts_slash_join:
  assumes "\<forall>s \<in> set segs. s \<noteq> [] \<and> CHR ''/'' \<notin> set s"
  shows "pathParts (''/'' @ join segs) = segs"
proof (cases "segs = []")
  case True
  then show ?thesis by (simp add: pathParts_def split_def)
next
  case False
  have "split (''/'' @ join segs) = [] # split (join segs)"
    by (simp add: split_def)
  also have "split (join segs) = segs"
    using assms False by (simp add: split_join)
  finally show ?thesis
    using assms by (simp add: pathParts_def filter_id_conv)
qed

text \<open>
  C3. \<^verbatim>\<open>getParentPath\<close> is a left inverse of \<^verbatim>\<open>buildPath\<close>: for a non-empty name without
  \<open>/\<close> and a parent path that is \<open>/\<close> (no segments) or \<open>/\<close> followed by one or more
  non-empty segments separated by \<open>/\<close>, the parent of the built path is the parent
  path.
\<close>

theorem getParentPath_buildPath:
  assumes nm: "nm \<noteq> []" "CHR ''/'' \<notin> set nm"
    and segs: "\<forall>s \<in> set segs. s \<noteq> [] \<and> CHR ''/'' \<notin> set s"
    and parent: "parentPath = (if segs = [] then ''/'' else ''/'' @ join segs)"
  shows "getParentPath (buildPath nm parentPath) = parentPath"
proof -
  have all: "\<forall>s \<in> set (segs @ [nm]). s \<noteq> [] \<and> CHR ''/'' \<notin> set s"
    using nm segs by auto
  have built: "buildPath nm parentPath = ''/'' @ join (segs @ [nm])"
  proof (cases "segs = []")
    case True
    then show ?thesis using parent by (simp add: buildPath_def)
  next
    case False
    then have "join segs \<noteq> []" using segs join_eq_Nil by blast
    then show ?thesis using parent False by (simp add: buildPath_def join_snoc)
  qed
  have parts: "pathParts (buildPath nm parentPath) = segs @ [nm]"
    unfolding built using all by (rule pathParts_slash_join)
  have ne: "buildPath nm parentPath \<noteq> ''/''" "buildPath nm parentPath \<noteq> []"
    using join_eq_Nil [of "segs @ [nm]"] all unfolding built by auto
  show ?thesis
    using parts ne parent by (simp add: getParentPath_def)
qed

theorem getParentPath_buildPath_witness:
  "''deep'' \<noteq> [] \<and> CHR ''/'' \<notin> set ''deep'' \<and>
   ''parent'' \<noteq> [] \<and> CHR ''/'' \<notin> set ''parent'' \<and>
   ''child'' \<noteq> [] \<and> CHR ''/'' \<notin> set ''child'' \<and>
   ''/parent/child'' = ''/'' @ join [''parent'', ''child''] \<and>
   buildPath ''deep'' ''/parent/child'' = ''/parent/child/deep'' \<and>
   getParentPath (buildPath ''deep'' ''/parent/child'') = ''/parent/child''"
  using getParentPath_buildPath [of "''deep''" "[''parent'', ''child'']" "''/parent/child''"]
  by (simp add: buildPath_def)

section \<open>Results: collapsing a folder\<close>

lemma removeLoop_filter:
  "removeLoop xs p fs = filter (\<lambda>q. \<not> (q \<in> set xs \<and> (q = p \<or> startsWith q (p @ ''/'')))) fs"
proof (induction xs arbitrary: fs)
  case Nil
  then show ?case by simp
next
  case (Cons x xs)
  show ?case
    by (auto simp: Cons.IH Set_delete_def removeAll_filter_not_eq intro!: filter_cong)
qed

text \<open>
  C4. Collapsing a folder removes exactly its subtree from the expansion set: after
  \<^verbatim>\<open>removeExpandedFolder(state, p)\<close> the set holds exactly the former members that are
  neither \<open>p\<close> nor start with \<open>p\<close> followed by \<open>/\<close>, nothing else of the state changes,
  and in particular a member that has \<open>p\<close> as a mere string prefix, without the
  separator, is still there.
\<close>

theorem removeExpandedFolder_subtree:
  "set (expandedFolders (removeExpandedFolder s p)) =
     {q \<in> set (expandedFolders s). q \<noteq> p \<and> \<not> startsWith q (p @ ''/'')} \<and>
   removeExpandedFolder s p =
     s\<lparr>expandedFolders := filter (\<lambda>q. q \<noteq> p \<and> \<not> startsWith q (p @ ''/'')) (expandedFolders s)\<rparr> \<and>
   (\<forall>q \<in> set (expandedFolders s).
      startsWith q p \<and> q \<noteq> p \<and> \<not> startsWith q (p @ ''/'') \<longrightarrow>
      q \<in> set (expandedFolders (removeExpandedFolder s p)))"
proof -
  have "removeLoop (expandedFolders s) p (expandedFolders s) =
        filter (\<lambda>q. q \<noteq> p \<and> \<not> startsWith q (p @ ''/'')) (expandedFolders s)"
    unfolding removeLoop_filter by (rule filter_cong) auto
  then show ?thesis
    by (auto simp: removeExpandedFolder_def)
qed

theorem removeExpandedFolder_subtree_witness:
  "''/parent2'' \<in> set (expandedFolders stateParents) \<and>
   startsWith ''/parent2'' ''/parent'' \<and> ''/parent2'' \<noteq> ''/parent'' \<and>
   \<not> startsWith ''/parent2'' (''/parent'' @ ''/'') \<and>
   ''/parent2'' \<in> set (expandedFolders (removeExpandedFolder stateParents ''/parent'')) \<and>
   expandedFolders (removeExpandedFolder stateParents ''/parent'') = [''/'', ''/parent2'']"
  using removeExpandedFolder_subtree [of stateParents "''/parent''"]
  by (simp add: stateParents_def)

section \<open>Results: formatting sizes\<close>

text \<open>
  The index of the unit, computed on natural numbers: the floor of the logarithm to
  base 1024 is one less than the number of base-1024 digits.
\<close>

lemma index_floorlog: "sz \<noteq> 0 \<Longrightarrow> nat \<lfloor>ln (real sz) / ln 1024\<rfloor> = floorlog 1024 sz - 1"
  by (simp add: floorlog_def log_def)

lemma formatSize_index:
  assumes "index = (if sz = 0 then 0 else min (floorlog 1024 sz - 1) 3)"
  shows "formatSize ns sz =
     toFixed ns (real sz / 1024 ^ index) (if index \<noteq> 0 then 1 else 0) @
     [''B'', ''KB'', ''MB'', ''GB''] ! index"
proof (cases "sz = 0")
  case True
  then show ?thesis using assms by (simp add: formatSize_def)
next
  case False
  then have "nat \<lfloor>ln (real sz) / ln 1024\<rfloor> = floorlog 1024 sz - 1"
    by (rule index_floorlog)
  then show ?thesis
    unfolding formatSize_def Let_def using False assms by (simp add: numeral_3_eq_3)
qed

lemma formatSize_code [code]:
  "formatSize ns sz =
     (let index = (if sz = 0 then 0 else min (floorlog 1024 sz - 1) 3)
      in toFixed ns (real sz / 1024 ^ index) (if index \<noteq> 0 then 1 else 0) @
         [''B'', ''KB'', ''MB'', ''GB''] ! index)"
  unfolding Let_def by (rule formatSize_index) simp

lemma floorlog_between:
  assumes "1024 ^ k \<le> sz" "sz < 1024 ^ Suc k"
  shows "floorlog 1024 sz - 1 = k"
proof -
  have "Suc k \<le> floorlog 1024 sz"
    using assms(1) by (intro floorlog_ge_SucI) auto
  moreover have "floorlog 1024 sz \<le> Suc k"
    using assms(2) by (intro floorlog_leI) auto
  ultimately show ?thesis by simp
qed

lemma formatSize_between:
  assumes "1024 ^ k \<le> sz" "sz < 1024 ^ Suc k" "k \<le> 3"
  shows "formatSize ns sz =
     toFixed ns (real sz / 1024 ^ k) (if k \<noteq> 0 then 1 else 0) @
     [''B'', ''KB'', ''MB'', ''GB''] ! k"
proof (rule formatSize_index)
  have "sz \<noteq> 0" using assms(1) by (cases "sz = 0") auto
  moreover have "floorlog 1024 sz - 1 = k" using assms(1,2) by (rule floorlog_between)
  ultimately show "k = (if sz = 0 then 0 else min (floorlog 1024 sz - 1) 3)"
    using assms(3) by simp
qed

lemma formatSize_capped:
  assumes "1024 ^ 3 \<le> sz"
  shows "formatSize ns sz = toFixed ns (real sz / 1024 ^ 3) 1 @ ''GB''"
proof -
  have "Suc 3 \<le> floorlog 1024 sz"
    using assms by (intro floorlog_ge_SucI) auto
  then have "3 = (if sz = 0 then 0 else min (floorlog 1024 sz - 1) 3)"
    using assms by auto
  from formatSize_index [OF this] show ?thesis by simp
qed

text \<open>The digits.\<close>

lemma decimal_small: "n < 10 \<Longrightarrow> decimal n = [''0123456789'' ! n]"
  by (subst decimal.simps) simp

lemma decimal_large: "10 \<le> n \<Longrightarrow> decimal n = decimal (n div 10) @ [''0123456789'' ! (n mod 10)]"
  by (subst decimal.simps) simp

lemma decimal_nonempty: "decimal n \<noteq> []"
  by (subst decimal.simps) simp

lemma decimal_digits: "set (decimal n) \<subseteq> set ''0123456789''"
proof (induction n rule: decimal.induct)
  case (1 n)
  have d: "\<And>k. k < 10 \<Longrightarrow> ''0123456789'' ! k \<in> set ''0123456789''"
    by (rule nth_mem) simp
  show ?case
  proof (cases "n < 10")
    case True
    then show ?thesis using d [of n] by (subst decimal.simps) simp
  next
    case False
    then show ?thesis using 1 d [of "n mod 10"] by (subst decimal.simps) simp
  qed
qed

text \<open>\<^verbatim>\<open>toFixed\<close> with no and with one decimal, below \<open>10\<^sup>2\<^sup>1\<close>.\<close>

lemma toFixed_0: "real n < 10 ^ 21 \<Longrightarrow> toFixed ns (real n) 0 = decimal n"
  by (simp add: toFixed_def Let_def)

lemma toFixed_1:
  assumes "x < 10 ^ 21" and "n = nat \<lfloor>x * 10 + 1 / 2\<rfloor>"
  shows "toFixed ns x (Suc 0) = decimal (n div 10) @ ''.'' @ decimal (n mod 10)"
proof -
  define M where "M = replicate (Suc 0 + 1 - length (decimal n)) CHR ''0'' @ decimal n"
  have n: "n = nat \<lfloor>x * 10 ^ Suc 0 + 1 / 2\<rfloor>"
    using assms(2) by simp
  have below: "\<not> 10 ^ 21 \<le> x"
    using assms(1) by simp
  have tf: "toFixed ns x (Suc 0) = take (length M - Suc 0) M @ ''.'' @ drop (length M - Suc 0) M"
    unfolding toFixed_def Let_def n [symmetric] M_def [symmetric]
    by (simp only: below if_False nat.distinct)
  have last: "decimal (n mod 10) = [''0123456789'' ! (n mod 10)]"
    by (simp add: decimal_small)
  show ?thesis
  proof (cases "n < 10")
    case True
    then have "M = CHR ''0'' # decimal n" "decimal n = [''0123456789'' ! n]"
      "decimal (n div 10) = ''0''" "n mod 10 = n"
      by (simp_all add: M_def decimal_small)
    then show ?thesis
      unfolding tf by simp
  next
    case False
    then have split: "decimal n = decimal (n div 10) @ [''0123456789'' ! (n mod 10)]"
      by (simp add: decimal_large)
    have "Suc 0 \<le> length (decimal (n div 10))"
      using decimal_nonempty [of "n div 10"] by (cases "decimal (n div 10)") simp_all
    then have "M = decimal (n div 10) @ [''0123456789'' ! (n mod 10)]"
      unfolding M_def split by simp
    then show ?thesis
      unfolding tf last by simp
  qed
qed

text \<open>
  The number printed before \<open>KB\<close>, \<open>MB\<close> and \<open>GB\<close> counts tenths of the unit: the size
  times ten over the unit, rounded to the nearest integer, halves upwards.
\<close>

lemma tenths:
  "nat \<lfloor>real sz / 1024 ^ k * 10 + 1 / 2\<rfloor> = (20 * sz + 1024 ^ k) div (2 * 1024 ^ k)"
proof -
  have "real sz / 1024 ^ k * 10 + 1 / 2 = real (20 * sz + 1024 ^ k) / real (2 * 1024 ^ k)"
    by (simp add: field_simps)
  then have "\<lfloor>real sz / 1024 ^ k * 10 + 1 / 2\<rfloor> = int ((20 * sz + 1024 ^ k) div (2 * 1024 ^ k))"
    by (simp only: floor_divide_of_nat_eq)
  then show ?thesis by simp
qed

lemma formatSize_zero: "formatSize ns 0 = ''0B''"
proof -
  have "decimal 0 = ''0''" by (simp add: decimal.simps)
  then show ?thesis using formatSize_index [of 0 0 ns] toFixed_0 [of 0 ns] by simp
qed

lemma formatSize_bytes:
  assumes "1 \<le> sz" "sz \<le> 1023"
  shows "formatSize ns sz = decimal sz @ ''B''"
proof -
  have "real sz < 10 ^ 21" using assms(2) by simp
  then show ?thesis
    using formatSize_between [of 0 sz ns] assms by (simp add: toFixed_0)
qed

lemma formatSize_tenths:
  assumes k: "1 \<le> k" "k \<le> 3" and lo: "1024 ^ k \<le> sz"
    and hi: "k < 3 \<longrightarrow> sz < 1024 ^ Suc k" and fixed: "sz < 10 ^ 21 * 1024 ^ 3"
    and n: "n = (20 * sz + 1024 ^ k) div (2 * 1024 ^ k)"
  shows "formatSize ns sz =
           decimal (n div 10) @ ''.'' @ decimal (n mod 10) @ [''B'', ''KB'', ''MB'', ''GB''] ! k"
proof -
  have fs: "formatSize ns sz = toFixed ns (real sz / 1024 ^ k) (Suc 0) @
              [''B'', ''KB'', ''MB'', ''GB''] ! k"
  proof (cases "k < 3")
    case True
    then have "sz < 1024 ^ Suc k" using hi by blast
    from formatSize_between [OF lo this k(2), of ns] k(1) show ?thesis
      by (cases k) simp_all
  next
    case False
    then have "k = 3" using k by simp
    then show ?thesis
      using formatSize_capped [of sz ns] lo by simp
  qed
  have bound: "sz < 10 ^ 21 * 1024 ^ k"
  proof (cases "k < 3")
    case True
    then have "sz < 1024 * 1024 ^ k" using hi by simp
    also have "(1024::nat) * 1024 ^ k \<le> 10 ^ 21 * 1024 ^ k"
      by (rule mult_le_mono1) simp
    finally show ?thesis .
  next
    case False
    then have "k = 3" using k by simp
    then show ?thesis using fixed by simp
  qed
  have "real sz < real (10 ^ 21 * 1024 ^ k)"
    using bound by (simp only: of_nat_less_iff)
  then have "real sz < 10 ^ 21 * 1024 ^ k"
    by simp
  then have small: "real sz / 1024 ^ k < 10 ^ 21"
    by (simp add: pos_divide_less_eq)
  have "nat \<lfloor>real sz / 1024 ^ k * 10 + 1 / 2\<rfloor> = n"
    unfolding n by (rule tenths)
  then show ?thesis
    unfolding fs using toFixed_1 [OF small, of n ns] by simp
qed

text \<open>
  C8. \<^verbatim>\<open>formatSize\<close> formats byte counts with the units B, KB, MB, GB on the divisor
  1024: 0 gives \<open>0B\<close>; a size from 1 to 1023 gives its decimal digits, without a point,
  followed by \<open>B\<close>; from 1024 on, the size is divided by the largest power of 1024 that
  does not exceed it, up to \<open>1024\<^sup>3\<close>, and printed with one decimal (rounded to the
  nearest tenth, halves upwards) before the unit of that power, so that 1024, \<open>1024\<^sup>2\<close>
  and \<open>1024\<^sup>3\<close> give \<open>1.0KB\<close>, \<open>1.0MB\<close> and \<open>1.0GB\<close>; and from \<open>1024\<^sup>3\<close> on the unit
  stays \<open>GB\<close>, whatever the size.
\<close>

theorem formatSize_units:
  "formatSize ns 0 = ''0B'' \<and>
   (\<forall>sz. 1 \<le> sz \<and> sz \<le> 1023 \<longrightarrow>
      formatSize ns sz = decimal sz @ ''B'' \<and> CHR ''.'' \<notin> set (decimal sz)) \<and>
   (\<forall>sz k. 1 \<le> k \<and> k \<le> 3 \<and> 1024 ^ k \<le> sz \<and> (k < 3 \<longrightarrow> sz < 1024 ^ Suc k) \<and>
           sz < 10 ^ 21 * 1024 ^ 3 \<longrightarrow>
      formatSize ns sz =
        decimal ((20 * sz + 1024 ^ k) div (2 * 1024 ^ k) div 10) @ ''.'' @
        decimal ((20 * sz + 1024 ^ k) div (2 * 1024 ^ k) mod 10) @
        [''B'', ''KB'', ''MB'', ''GB''] ! k) \<and>
   formatSize ns 1024 = ''1.0KB'' \<and>
   formatSize ns (1024 ^ 2) = ''1.0MB'' \<and>
   formatSize ns (1024 ^ 3) = ''1.0GB'' \<and>
   (\<forall>sz. 1024 ^ 3 \<le> sz \<longrightarrow>
      formatSize ns sz = toFixed ns (real sz / 1024 ^ 3) 1 @ ''GB'')"
proof -
  have bytes: "formatSize ns sz = decimal sz @ ''B'' \<and> CHR ''.'' \<notin> set (decimal sz)"
    if "1 \<le> sz \<and> sz \<le> 1023" for sz
    using that formatSize_bytes [of sz ns] decimal_digits [of sz] by auto
  have ranges: "formatSize ns sz =
        decimal ((20 * sz + 1024 ^ k) div (2 * 1024 ^ k) div 10) @ ''.'' @
        decimal ((20 * sz + 1024 ^ k) div (2 * 1024 ^ k) mod 10) @
        [''B'', ''KB'', ''MB'', ''GB''] ! k"
    if "1 \<le> k \<and> k \<le> 3 \<and> 1024 ^ k \<le> sz \<and> (k < 3 \<longrightarrow> sz < 1024 ^ Suc k) \<and>
        sz < 10 ^ 21 * 1024 ^ 3" for sz k
  proof -
    from that have a: "1 \<le> k" "k \<le> 3" "1024 ^ k \<le> sz" "k < 3 \<longrightarrow> sz < 1024 ^ Suc k"
      "sz < 10 ^ 21 * 1024 ^ 3" by blast+
    show ?thesis by (rule formatSize_tenths [OF a refl])
  qed
  have d: "decimal 1 = ''1''" "decimal 0 = ''0''"
    by (simp_all add: decimal.simps)
  have "formatSize ns 1024 = decimal (10 div 10) @ ''.'' @ decimal (10 mod 10) @
     [''B'', ''KB'', ''MB'', ''GB''] ! 1"
    by (rule formatSize_tenths) simp_all
  then have kb: "formatSize ns 1024 = ''1.0KB''"
    using d by simp
  have "formatSize ns (1024 ^ 2) = decimal (10 div 10) @ ''.'' @ decimal (10 mod 10) @
     [''B'', ''KB'', ''MB'', ''GB''] ! 2"
    by (rule formatSize_tenths) simp_all
  then have mb: "formatSize ns (1024 ^ 2) = ''1.0MB''"
    using d by simp
  have "formatSize ns (1024 ^ 3) = decimal (10 div 10) @ ''.'' @ decimal (10 mod 10) @
     [''B'', ''KB'', ''MB'', ''GB''] ! 3"
    by (rule formatSize_tenths) simp_all
  then have gb: "formatSize ns (1024 ^ 3) = ''1.0GB''"
    using d by simp
  have capped: "\<forall>sz. 1024 ^ 3 \<le> sz \<longrightarrow>
      formatSize ns sz = toFixed ns (real sz / 1024 ^ 3) 1 @ ''GB''"
    using formatSize_capped by blast
  have bytes_all: "\<forall>sz. 1 \<le> sz \<and> sz \<le> 1023 \<longrightarrow>
      formatSize ns sz = decimal sz @ ''B'' \<and> CHR ''.'' \<notin> set (decimal sz)"
    using bytes by blast
  have ranges_all: "\<forall>sz k. 1 \<le> k \<and> k \<le> 3 \<and> 1024 ^ k \<le> sz \<and> (k < 3 \<longrightarrow> sz < 1024 ^ Suc k) \<and>
           sz < 10 ^ 21 * 1024 ^ 3 \<longrightarrow>
      formatSize ns sz =
        decimal ((20 * sz + 1024 ^ k) div (2 * 1024 ^ k) div 10) @ ''.'' @
        decimal ((20 * sz + 1024 ^ k) div (2 * 1024 ^ k) mod 10) @
        [''B'', ''KB'', ''MB'', ''GB''] ! k"
    using ranges by blast
  show ?thesis
    by (intro conjI) (rule formatSize_zero bytes_all ranges_all kb mb gb capped)+
qed

theorem formatSize_units_witness:
  "(1::nat) \<le> 500 \<and> (500::nat) \<le> 1023 \<and> formatSize (numberToString envListing) 500 = ''500B'' \<and>
   (1024::nat) ^ 1 \<le> 1536 \<and> (1536::nat) < 1024 ^ Suc 1 \<and> formatSize (numberToString envListing) 1536 = ''1.5KB'' \<and>
   (1024::nat) ^ 2 \<le> 5242879 \<and> (5242879::nat) < 1024 ^ Suc 2 \<and>
   formatSize (numberToString envListing) 5242879 = ''5.0MB'' \<and>
   (1024::nat) ^ 3 \<le> 2684354560 \<and> formatSize (numberToString envListing) 2684354560 = ''2.5GB''"
proof -
  have d: "decimal 500 = ''500''" "decimal 1 = ''1''" "decimal 5 = ''5''" "decimal 2 = ''2''"
    "decimal 0 = ''0''"
    by (simp_all add: decimal.simps)
  have bytes: "\<forall>sz. 1 \<le> sz \<and> sz \<le> 1023 \<longrightarrow>
      formatSize (numberToString envListing) sz = decimal sz @ ''B'' \<and> CHR ''.'' \<notin> set (decimal sz)"
    and ranges: "\<forall>sz k. 1 \<le> k \<and> k \<le> 3 \<and> 1024 ^ k \<le> sz \<and> (k < 3 \<longrightarrow> sz < 1024 ^ Suc k) \<and>
           sz < 10 ^ 21 * 1024 ^ 3 \<longrightarrow>
      formatSize (numberToString envListing) sz =
        decimal ((20 * sz + 1024 ^ k) div (2 * 1024 ^ k) div 10) @ ''.'' @
        decimal ((20 * sz + 1024 ^ k) div (2 * 1024 ^ k) mod 10) @
        [''B'', ''KB'', ''MB'', ''GB''] ! k"
    using formatSize_units [of "numberToString envListing"] by blast+
  have b: "formatSize (numberToString envListing) 500 = ''500B''"
    using bytes [rule_format, of 500] d by simp
  have "formatSize (numberToString envListing) 1536 =
      decimal ((20 * 1536 + 1024 ^ 1) div (2 * 1024 ^ 1) div 10) @ ''.'' @
      decimal ((20 * 1536 + 1024 ^ 1) div (2 * 1024 ^ 1) mod 10) @
      [''B'', ''KB'', ''MB'', ''GB''] ! 1"
    by (rule ranges [rule_format]) simp
  then have kb: "formatSize (numberToString envListing) 1536 = ''1.5KB''"
    using d by simp
  have "formatSize (numberToString envListing) 5242879 =
      decimal ((20 * 5242879 + 1024 ^ 2) div (2 * 1024 ^ 2) div 10) @ ''.'' @
      decimal ((20 * 5242879 + 1024 ^ 2) div (2 * 1024 ^ 2) mod 10) @
      [''B'', ''KB'', ''MB'', ''GB''] ! 2"
    by (rule ranges [rule_format]) simp
  then have mb: "formatSize (numberToString envListing) 5242879 = ''5.0MB''"
    using d by simp
  have "formatSize (numberToString envListing) 2684354560 =
      decimal ((20 * 2684354560 + 1024 ^ 3) div (2 * 1024 ^ 3) div 10) @ ''.'' @
      decimal ((20 * 2684354560 + 1024 ^ 3) div (2 * 1024 ^ 3) mod 10) @
      [''B'', ''KB'', ''MB'', ''GB''] ! 3"
    by (rule ranges [rule_format]) simp
  then have gb: "formatSize (numberToString envListing) 2684354560 = ''2.5GB''"
    using d by simp
  show ?thesis
    using b kb mb gb by simp
qed

section \<open>Results: the listing endpoint\<close>

lemma path_join_examples:
  "path_join ''/srv/app'' ''docs'' = ''/srv/app/docs''"
  "path_join ''/srv/app'' ''broken'' = ''/srv/app/broken''"
  "path_join ''/srv/app'' ''../app-secret'' = ''/srv/app-secret''"
  "path_join ''/srv/app'' ''package.json'' = ''/srv/app/package.json''"
  "path_join ''/srv/app/docs'' ''a.txt'' = ''/srv/app/docs/a.txt''"
  "path_join ''/srv/app/docs'' ''sub'' = ''/srv/app/docs/sub''"
  "path_join ''/srv/app/broken'' ''link'' = ''/srv/app/broken/link''"
  "path_join ''/srv/app-secret'' ''key.pem'' = ''/srv/app-secret/key.pem''"
  by (simp_all add: path_join_def path_normalize_def split_def)

lemma startsWith_refl: "startsWith p p"
  by (induction p) auto

lemma startsWith_append: "startsWith s (p @ q) \<Longrightarrow> startsWith s p"
  by (induction s p rule: startsWith.induct) auto

lemma withinDirectory_startsWith: "withinDirectory p dir \<Longrightarrow> startsWith p dir"
  by (auto simp: withinDirectory_def startsWith_refl dest: startsWith_append split: if_splits)

lemma promiseAll_map_Some:
  "\<forall>x \<in> set xs. g x \<noteq> None \<Longrightarrow> promiseAll (map g xs) = Some (map (\<lambda>x. the (g x)) xs)"
  by (induction xs) auto

lemma promiseAll_Some_all:
  "promiseAll ps = Some vs \<Longrightarrow> None \<notin> set ps"
  by (induction ps arbitrary: vs rule: promiseAll.induct) auto

text \<open>
  What the guard of the handler does establish: a resolved path that does not have the
  server directory as a string prefix is refused before the filesystem is touched.
\<close>

lemma apiFiles_denied:
  "\<not> startsWith (path_join dirname (case params0 of None \<Rightarrow> [] | Some p \<Rightarrow> p)) dirname \<Longrightarrow>
   apiFiles dirname fs params0 = (\<lparr>status = 403, json = Error ''Access denied''\<rparr>, [])"
  by (simp add: apiFiles_def)

text \<open>
  C1, as stated: for every request whose resolved path is a directory inside the project
  directory the handler responds with the array of entries. This fails when a call on
  the way rejects: \<open>/srv/app/broken\<close> is a directory inside the project, its entry
  \<open>link\<close> cannot be stat-ed, and the answer is the error 500.
\<close>

theorem apiFiles_listing_counterexample:
  "withinDirectory (path_join ''/srv/app'' ''broken'') ''/srv/app'' \<and>
   map_option isDirectory (stat fsExample (path_join ''/srv/app'' ''broken'')) = Some True \<and>
   fst (apiFiles ''/srv/app'' fsExample (Some ''broken'')) =
     \<lparr>status = 500, json = Error ''Internal server error''\<rparr>"
  by (simp add: apiFiles_def path_join_examples fsExample_def dirStats_def fileStats_def
        mkItem_def withinDirectory_def Let_def)

text \<open>
  C1, amended: for every request whose resolved path is a directory inside the project
  directory, and for which \<open>readdir\<close> and the \<open>stat\<close> of every child succeed, the
  handler responds with status 200 and an array holding exactly one entry per name that
  \<open>readdir\<close> returned, in that order; each entry has type \<open>folder\<close> if the child is a
  directory and \<open>file\<close> otherwise, and carries the name and the modification time and
  size that \<open>stat\<close> reported for the child.
\<close>

theorem apiFiles_listing:
  assumes full: "fullPath = path_join dirname (case params0 of None \<Rightarrow> [] | Some p \<Rightarrow> p)"
    and within: "withinDirectory fullPath dirname"
    and dir: "stat fs fullPath = Some stats" "isDirectory stats"
    and names: "readdir fs fullPath = Some names"
    and kids: "\<forall>nm \<in> set names. stat fs (path_join fullPath nm) \<noteq> None"
  shows "\<exists>items.
           fst (apiFiles dirname fs params0) = \<lparr>status = 200, json = Items items\<rparr> \<and>
           length items = length names \<and>
           (\<forall>i < length names.
              \<exists>st. stat fs (path_join fullPath (names ! i)) = Some st \<and>
                   itemName (items ! i) = names ! i \<and>
                   itemType (items ! i) = (if isDirectory st then Folder else File) \<and>
                   itemModified (items ! i) = mtime st \<and>
                   itemSize (items ! i) = Stats.size' st)"
proof -
  let ?g = "\<lambda>nm. map_option (mkItem nm) (stat fs (path_join fullPath nm))"
  let ?items = "map (\<lambda>nm. the (?g nm)) names"
  have all: "\<forall>nm \<in> set names. ?g nm \<noteq> None"
    using kids by simp
  have "promiseAll (map ?g names) = Some ?items"
    using all by (rule promiseAll_map_Some)
  then have resp: "fst (apiFiles dirname fs params0) = \<lparr>status = 200, json = Items ?items\<rparr>"
    using full withinDirectory_startsWith [OF within] dir names
    by (simp add: apiFiles_def Let_def)
  have entry: "\<exists>st. stat fs (path_join fullPath (names ! i)) = Some st \<and>
                   itemName (?items ! i) = names ! i \<and>
                   itemType (?items ! i) = (if isDirectory st then Folder else File) \<and>
                   itemModified (?items ! i) = mtime st \<and>
                   itemSize (?items ! i) = Stats.size' st" if "i < length names" for i
  proof -
    from that kids obtain st where "stat fs (path_join fullPath (names ! i)) = Some st"
      by (metis nth_mem not_None_eq)
    then show ?thesis using that by (simp add: mkItem_def)
  qed
  show ?thesis
    using resp entry by (intro exI [of _ ?items]) simp
qed

theorem apiFiles_listing_witness:
  "withinDirectory ''/srv/app/docs'' ''/srv/app'' \<and>
   stat fsExample ''/srv/app/docs'' = Some dirStats \<and> isDirectory dirStats \<and>
   readdir fsExample ''/srv/app/docs'' = Some [''a.txt'', ''sub''] \<and>
   stat fsExample ''/srv/app/docs/a.txt'' = Some fileStats \<and>
   stat fsExample ''/srv/app/docs/sub'' = Some dirStats \<and>
   (\<exists>items. fst (apiFiles ''/srv/app'' fsExample (Some ''docs'')) =
              \<lparr>status = 200, json = Items items\<rparr> \<and>
            map itemName items = [''a.txt'', ''sub''] \<and>
            map itemType items = [File, Folder])"
proof -
  have pre: "withinDirectory ''/srv/app/docs'' ''/srv/app''"
    "stat fsExample ''/srv/app/docs'' = Some dirStats" "isDirectory dirStats"
    "readdir fsExample ''/srv/app/docs'' = Some [''a.txt'', ''sub'']"
    "stat fsExample ''/srv/app/docs/a.txt'' = Some fileStats"
    "stat fsExample ''/srv/app/docs/sub'' = Some dirStats"
    by (simp_all add: withinDirectory_def fsExample_def dirStats_def)
  have kids: "\<forall>nm \<in> set [''a.txt'', ''sub''].
                stat fsExample (path_join ''/srv/app/docs'' nm) \<noteq> None"
    using pre by (simp add: path_join_examples)
  have full: "''/srv/app/docs'' =
      path_join ''/srv/app'' (case Some ''docs'' of None \<Rightarrow> [] | Some p \<Rightarrow> p)"
    by (simp add: path_join_examples)
  from apiFiles_listing [OF full pre(1,2,3,4) kids]
  obtain items where items:
    "fst (apiFiles ''/srv/app'' fsExample (Some ''docs'')) = \<lparr>status = 200, json = Items items\<rparr>"
    "length items = length [''a.txt'', ''sub'']"
    "\<forall>i < length [''a.txt'', ''sub''].
       \<exists>st. stat fsExample (path_join ''/srv/app/docs'' ([''a.txt'', ''sub''] ! i)) = Some st \<and>
            itemName (items ! i) = [''a.txt'', ''sub''] ! i \<and>
            itemType (items ! i) = (if isDirectory st then Folder else File) \<and>
            itemModified (items ! i) = mtime st \<and>
            itemSize (items ! i) = Stats.size' st"
    by blast
  from items(2) obtain x y where xy: "items = [x, y]"
    by (cases items; cases "tl items"; cases "tl (tl items)") auto
  have two: "(0::nat) < length [''a.txt'', ''sub'']" "(1::nat) < length [''a.txt'', ''sub'']"
    by simp_all
  have "itemName x = ''a.txt'' \<and> itemType x = File"
    using items(3) [rule_format, OF two(1)] pre xy
    by (auto simp: path_join_examples fileStats_def)
  moreover have "itemName y = ''sub'' \<and> itemType y = Folder"
    using items(3) [rule_format, OF two(2)] pre xy
    by (auto simp: path_join_examples dirStats_def)
  ultimately show ?thesis
    using pre items(1) xy by auto
qed

text \<open>
  C2. When the \<open>stat\<close> of the resolved path succeeds and reports something that is not
  a directory, the handler answers 400 with \<open>Not a directory\<close>; when any filesystem
  call it makes rejects, it answers 500 with \<open>Internal server error\<close>. The calls are
  those the handler made, read off its log.
\<close>

theorem apiFiles_errors:
  assumes full: "fullPath = path_join dirname (case params0 of None \<Rightarrow> [] | Some p \<Rightarrow> p)"
  shows "(\<forall>stats. StatCall fullPath (Some stats) \<in> set (snd (apiFiles dirname fs params0)) \<and>
                  \<not> isDirectory stats \<longrightarrow>
            fst (apiFiles dirname fs params0) = \<lparr>status = 400, json = Error ''Not a directory''\<rparr>) \<and>
         ((\<exists>c \<in> set (snd (apiFiles dirname fs params0)). rejected c) \<longrightarrow>
            fst (apiFiles dirname fs params0) =
              \<lparr>status = 500, json = Error ''Internal server error''\<rparr>)"
proof (intro conjI allI impI)
  fix stats
  assume a: "StatCall fullPath (Some stats) \<in> set (snd (apiFiles dirname fs params0)) \<and>
             \<not> isDirectory stats"
  then have "stat fs fullPath = Some stats"
    using full by (auto simp: apiFiles_def Let_def split: if_splits option.splits)
  then show "fst (apiFiles dirname fs params0) = \<lparr>status = 400, json = Error ''Not a directory''\<rparr>"
    using a full by (auto simp: apiFiles_def Let_def split: if_splits option.splits)
next
  assume "\<exists>c \<in> set (snd (apiFiles dirname fs params0)). rejected c"
  then show "fst (apiFiles dirname fs params0) =
              \<lparr>status = 500, json = Error ''Internal server error''\<rparr>"
    by (auto simp: apiFiles_def Let_def split: if_splits option.splits
             dest!: promiseAll_Some_all)
qed

theorem apiFiles_errors_witness:
  "StatCall ''/srv/app/package.json'' (Some fileStats)
     \<in> set (snd (apiFiles ''/srv/app'' fsExample (Some ''package.json''))) \<and>
   \<not> isDirectory fileStats \<and>
   fst (apiFiles ''/srv/app'' fsExample (Some ''package.json'')) =
     \<lparr>status = 400, json = Error ''Not a directory''\<rparr> \<and>
   StatCall ''/srv/app/broken/link'' None
     \<in> set (snd (apiFiles ''/srv/app'' fsExample (Some ''broken''))) \<and>
   rejected (StatCall ''/srv/app/broken/link'' None) \<and>
   fst (apiFiles ''/srv/app'' fsExample (Some ''broken'')) =
     \<lparr>status = 500, json = Error ''Internal server error''\<rparr>"
proof -
  have a: "StatCall ''/srv/app/package.json'' (Some fileStats)
             \<in> set (snd (apiFiles ''/srv/app'' fsExample (Some ''package.json'')))"
    and b: "\<not> isDirectory fileStats"
    by (simp_all add: apiFiles_def path_join_examples fsExample_def fileStats_def Let_def)
  have c: "StatCall ''/srv/app/broken/link'' None
             \<in> set (snd (apiFiles ''/srv/app'' fsExample (Some ''broken'')))"
    by (simp add: apiFiles_def path_join_examples fsExample_def dirStats_def Let_def)
  have d: "rejected (StatCall ''/srv/app/broken/link'' None)"
    by simp
  have full1: "''/srv/app/package.json'' =
      path_join ''/srv/app'' (case Some ''package.json'' of None \<Rightarrow> [] | Some p \<Rightarrow> p)"
    and full2: "''/srv/app/broken'' =
      path_join ''/srv/app'' (case Some ''broken'' of None \<Rightarrow> [] | Some p \<Rightarrow> p)"
    by (simp_all add: path_join_examples)
  have e: "fst (apiFiles ''/srv/app'' fsExample (Some ''package.json'')) =
             \<lparr>status = 400, json = Error ''Not a directory''\<rparr>"
    using apiFiles_errors [OF full1, of fsExample] a b by blast
  have f: "fst (apiFiles ''/srv/app'' fsExample (Some ''broken'')) =
             \<lparr>status = 500, json = Error ''Internal server error''\<rparr>"
    using apiFiles_errors [OF full2, of fsExample] c d by blast
  show ?thesis
    using a b c d e f by blast
qed

text \<open>
  C10. The endpoint is to refuse, before any filesystem call, every request whose
  resolved path is not inside the server directory. The guard compares string prefixes
  only, so a sibling of the server directory whose name continues the server
  directory's name passes it: for the server in \<open>/srv/app\<close>, the request for
  \<open>../app-secret\<close> resolves to \<open>/srv/app-secret\<close>, which is not within \<open>/srv/app\<close>, and
  the handler stats it, reads it and answers with its listing.
\<close>

theorem apiFiles_reads_sibling:
  "path_join ''/srv/app'' ''../app-secret'' = ''/srv/app-secret'' \<and>
   \<not> withinDirectory ''/srv/app-secret'' ''/srv/app'' \<and>
   apiFiles ''/srv/app'' fsExample (Some ''../app-secret'') =
     (\<lparr>status = 200, json = Items [Item File ''key.pem'' (mtime fileStats) 1536 None]\<rparr>,
      [StatCall ''/srv/app-secret'' (Some dirStats),
       ReaddirCall ''/srv/app-secret'' (Some [''key.pem'']),
       StatCall ''/srv/app-secret/key.pem'' (Some fileStats)])"
  by (simp add: apiFiles_def path_join_examples fsExample_def dirStats_def fileStats_def
        mkItem_def withinDirectory_def Let_def)

section \<open>Results: the list view\<close>

lemma textContentOf_icon [simp]:
  "textContentOf (createIcon ty b) = []"
  by (simp add: createIcon_def createFolderIcon_def createFileIcon_def createElement_def
        noProps_def classList_add_def Let_def)

lemma textContentOf_folderIcon [simp]: "textContentOf (createFolderIcon b) = []"
  by (simp add: createFolderIcon_def createElement_def noProps_def classList_add_def Let_def)

lemma createListRow_shape:
  "createListRow icon txt m sz l =
     Element ''tr'' [''list-item''] None None l
       [append' [icon, TextNode txt] (createElement ''td'' noProps),
        createElement ''td'' (noProps\<lparr>textContent := Some (orDashes m)\<rparr>),
        createElement ''td'' (noProps\<lparr>textContent := Some (orDashes sz)\<rparr>)]"
  by (cases l) (simp_all add: createListRow_def createElement_def noProps_def append'_def)

lemma rowLabel_createListRow:
  "rowLabel (createListRow icon txt m sz l) = textContentOf icon @ txt"
  by (simp add: createListRow_shape rowLabel_def querySelector_def byTag_def createElement_def
        noProps_def append'_def)

lemma onClick_createListRow: "onClick (createListRow icon txt m sz l) = l"
  by (simp add: createListRow_shape)

lemma rowLabel_listRow: "rowLabel (listRow env s item) = name item"
  by (simp add: listRow_def rowLabel_createListRow)

lemma onClick_listRow:
  "onClick (listRow env s item) =
     (if type' item = Folder then Some (OnClickItem (name item)) else None)"
  by (simp add: listRow_def onClick_createListRow)

lemma childNodes_rebuilt:
  "isElement v \<Longrightarrow> childNodes (append' rows (clearInnerHTML v)) = rows"
  by (cases v) (simp_all add: append'_def clearInnerHTML_def)

text \<open>
  C6. For every state and every listing, \<^verbatim>\<open>updateListView\<close> rebuilds the list view: it
  completes, and the rows of the view are then one row per entry of the listing, in
  order and labelled with the entry's name, preceded by the parent-navigation row,
  labelled \<open>...\<close>, if and only if the current path is not \<open>/\<close>; at the root no row
  navigates to the parent. Nothing else of the state changes.
\<close>

theorem updateListView_rows:
  assumes view: "isElement (listView s)"
  shows "let s' = snd (updateListView env s (Listing items));
             rows = childNodes (listView s');
             k = (if currentPath s = ''/'' then 0 else 1)
         in fst (updateListView env s (Listing items)) = Completed \<and>
            length rows = k + length items \<and>
            map rowLabel (drop k rows) = map name items \<and>
            (\<forall>i < length items. onClick (rows ! (k + i)) =
               (if type' (items ! i) = Folder then Some (OnClickItem (name (items ! i))) else None)) \<and>
            (currentPath s \<noteq> ''/'' \<longrightarrow>
               rowLabel (hd rows) = ''...'' \<and> onClick (hd rows) = Some OnClickParent) \<and>
            ((\<exists>r \<in> set rows. onClick r = Some OnClickParent) \<longleftrightarrow> currentPath s \<noteq> ''/'') \<and>
            s' = s\<lparr>listView := listView s'\<rparr>"
proof -
  let ?parent = "createListRow (createFolderIcon False) ''...'' None None (Some OnClickParent)"
  define rows where "rows = childNodes (listView (snd (updateListView env s (Listing items))))"
  define k :: nat where "k = (if currentPath s = ''/'' then 0 else 1)"
  have rows: "rows = (if currentPath s = ''/'' then [] else [?parent]) @ map (listRow env s) items"
    unfolding rows_def using view by (simp add: updateListView_def childNodes_rebuilt)
  have 1: "fst (updateListView env s (Listing items)) = Completed"
    by (simp add: updateListView_def)
  have 2: "length rows = k + length items"
    by (simp add: rows k_def)
  have 3: "map rowLabel (drop k rows) = map name items"
    by (simp add: rows k_def rowLabel_listRow)
  have 4: "\<forall>i < length items. onClick (rows ! (k + i)) =
           (if type' (items ! i) = Folder then Some (OnClickItem (name (items ! i))) else None)"
    by (simp add: rows k_def onClick_listRow nth_append)
  have 5: "currentPath s \<noteq> ''/'' \<longrightarrow>
             rowLabel (hd rows) = ''...'' \<and> onClick (hd rows) = Some OnClickParent"
    by (simp add: rows rowLabel_createListRow onClick_createListRow)
  have 6: "(\<exists>r \<in> set rows. onClick r = Some OnClickParent) \<longleftrightarrow> currentPath s \<noteq> ''/''"
    by (auto simp: rows onClick_createListRow onClick_listRow split: if_splits)
  have 7: "snd (updateListView env s (Listing items)) =
             s\<lparr>listView := listView (snd (updateListView env s (Listing items)))\<rparr>"
    by (simp add: updateListView_def)
  show ?thesis
    unfolding Let_def rows_def [symmetric] k_def [symmetric]
    using 1 2 3 4 5 6 7 by blast
qed

theorem updateListView_rows_witness:
  "isElement (listView stateDocs) \<and> currentPath stateDocs \<noteq> ''/'' \<and>
   map rowLabel (childNodes (listView (snd (updateListView envListing stateDocs
      (Listing [\<lparr>type' = Folder, name = ''sub'', modified = ''m1'', size' = None\<rparr>]))))) =
     [''...'', ''sub''] \<and>
   isElement (listView (createInitialState emptyDiv emptyDiv)) \<and>
   currentPath (createInitialState emptyDiv emptyDiv) = ''/'' \<and>
   map rowLabel (childNodes (listView (snd (updateListView envListing
      (createInitialState emptyDiv emptyDiv)
      (Listing [\<lparr>type' = Folder, name = ''sub'', modified = ''m1'', size' = None\<rparr>]))))) =
     [''sub'']"
proof -
  let ?items = "[\<lparr>type' = Folder, name = ''sub'', modified = ''m1'', size' = None\<rparr>]"
  have a: "isElement (listView stateDocs)" "currentPath stateDocs \<noteq> ''/''"
    and b: "isElement (listView (createInitialState emptyDiv emptyDiv))"
      "currentPath (createInitialState emptyDiv emptyDiv) = ''/''"
    by (simp_all add: stateDocs_def emptyDiv_def createInitialState_def)
  let ?r1 = "childNodes (listView (snd (updateListView envListing stateDocs (Listing ?items))))"
  let ?r2 = "childNodes (listView (snd (updateListView envListing
               (createInitialState emptyDiv emptyDiv) (Listing ?items))))"
  from updateListView_rows [OF a(1), of envListing ?items] a(2)
  have 1: "length ?r1 = 2" "map rowLabel (drop 1 ?r1) = [''sub'']" "rowLabel (hd ?r1) = ''...''"
    by (simp_all add: Let_def)
  from 1(1) obtain x y where xy: "?r1 = [x, y]"
    by (cases ?r1; cases "tl ?r1"; cases "tl (tl ?r1)") auto
  from updateListView_rows [OF b(1), of envListing ?items] b(2)
  have 2: "map rowLabel ?r2 = [''sub'']"
    by (simp add: Let_def)
  show ?thesis
    using a b 1 2 unfolding xy by simp
qed


section \<open>Results: the root stays expanded\<close>

lemma updateListView_frame:
  "expandedFolders (snd (updateListView env s d)) = expandedFolders s"
  "currentPath (snd (updateListView env s d)) = currentPath s"
  "treeView (snd (updateListView env s d)) = treeView s"
  "fetched (snd (updateListView env s d)) = fetched s"
  by (cases d; simp add: updateListView_def)+

lemma updateTreeView_frame:
  "expandedFolders (snd (updateTreeView s d pe lv pp)) = expandedFolders s"
  "currentPath (snd (updateTreeView s d pe lv pp)) = currentPath s"
  "listView (snd (updateTreeView s d pe lv pp)) = listView s"
  "fetched (snd (updateTreeView s d pe lv pp)) = fetched s"
  by (cases d; simp add: updateTreeView_def Let_def)+

lemma updateListViewExpansion_frame:
  "expandedFolders (updateListViewExpansion s) = expandedFolders s"
  "currentPath (updateListViewExpansion s) = currentPath s"
  "treeView (updateListViewExpansion s) = treeView s"
  "fetched (updateListViewExpansion s) = fetched s"
  by (simp_all add: updateListViewExpansion_def)

lemma updateSelection_frame:
  "expandedFolders (snd (updateSelection env s p)) = expandedFolders s"
  "currentPath (snd (updateSelection env s p)) = currentPath s"
  "fetched (snd (updateSelection env s p)) = fetched s"
  by (simp_all add: updateSelection_def Let_def split: option.splits)

lemma andThen_snd:
  assumes "P (snd r)" and "\<And>s. P s \<Longrightarrow> P (snd (k s))"
  shows "P (snd (andThen r k))"
proof (cases r)
  case (Pair out s)
  then show ?thesis using assms by (cases out) auto
qed

lemma toggle_folders:
  "expandedFolders (snd (toggleFolderExpansion env s path force)) =
     (if path = ''/'' then expandedFolders s
      else if (case force of Some b \<Rightarrow> b | None \<Rightarrow> \<not> Set_has (expandedFolders s) path)
      then Set_add path (expandedFolders s)
      else removeLoop (expandedFolders s) path (expandedFolders s)) \<and>
   currentPath (snd (toggleFolderExpansion env s path force)) = currentPath s"
  unfolding toggleFolderExpansion_def Let_def
  by (auto simp: removeExpandedFolder_def fetchFolderContents_def updateListViewExpansion_frame
        updateTreeView_frame split: option.splits prod.splits
        intro!: andThen_snd [where P = "\<lambda>s'. expandedFolders s' = X" for X]
                andThen_snd [where P = "\<lambda>s'. currentPath s' = X" for X])


lemma buildPath_not_empty: "buildPath nm parentPath \<noteq> []"
  by (simp add: buildPath_def)

lemma startsWith_Nil: "startsWith [] p = (p = [])"
  by (cases p) auto

lemma root_not_below: "path \<noteq> [] \<Longrightarrow> \<not> startsWith ''/'' (path @ ''/'')"
  by (cases path) (auto simp: startsWith_Nil)

lemma toggle_keeps_root:
  assumes "path \<noteq> []" "''/'' \<in> set (expandedFolders s)"
  shows "''/'' \<in> set (expandedFolders (snd (toggleFolderExpansion env s path force)))"
  using assms root_not_below [of path]
  by (auto simp: toggle_folders Set_add_def removeLoop_filter)

lemma expandLoop_keeps_root:
  "''/'' \<in> set (expandedFolders s) \<Longrightarrow>
   ''/'' \<in> set (expandedFolders (snd (expandLoop env s cur parts)))"
proof (induction parts arbitrary: s cur)
  case Nil
  then show ?case by simp
next
  case (Cons part parts)
  have "''/'' \<in> set (expandedFolders
            (snd (toggleFolderExpansion env s (buildPath part cur) (Some True))))"
    using buildPath_not_empty Cons.prems by (rule toggle_keeps_root)
  then show ?case
    unfolding expandLoop.simps Let_def
    by (rule andThen_snd [where P = "\<lambda>s'. ''/'' \<in> set (expandedFolders s')"])
       (rule Cons.IH)
qed

lemma handleFolderSelect_keeps_root:
  assumes "path \<noteq> []" "''/'' \<in> set (expandedFolders s)"
  shows "''/'' \<in> set (expandedFolders (snd (handleFolderSelect env s path src)))"
  unfolding handleFolderSelect_def Let_def
  by (intro andThen_snd [where P = "\<lambda>s'. ''/'' \<in> set (expandedFolders s')"])
     (auto simp: assms fetchFolderContents_def updateListView_frame updateSelection_frame
           expandTreeToPath_def split: option.splits prod.splits
           intro: toggle_keeps_root expandLoop_keeps_root)

lemma init_keeps_root:
  assumes "''/'' \<in> set (expandedFolders s)"
  shows "''/'' \<in> set (expandedFolders (snd (init env s)))"
  unfolding init_def
  by (auto simp: assms fetchFolderContents_def updateListView_frame updateTreeView_frame
        split: option.splits prod.splits
        intro!: andThen_snd [where P = "\<lambda>s'. ''/'' \<in> set (expandedFolders s')"])

lemma reachable_root: "reachable env s \<Longrightarrow> ''/'' \<in> set (expandedFolders s)"
proof (induction rule: reachable.induct)
  case (created treeView' listView')
  show ?case by (simp add: createInitialState_def)
next
  case (initialised s)
  then show ?case by (simp add: init_keeps_root)
next
  case (selected s nm parentPath src)
  then show ?case by (simp add: handleFolderSelect_keeps_root buildPath_not_empty)
next
  case (toggled s nm parentPath forceState)
  then show ?case by (simp add: toggle_keeps_root buildPath_not_empty)
qed

text \<open>
  C9. The root is permanently expanded: \<open>/\<close> is in the expansion set of the initial
  state; \<^verbatim>\<open>toggleFolderExpansion\<close> on \<open>/\<close> completes and leaves the whole state, and so
  the set and both views, as it was; and \<open>/\<close> is in the expansion set of every
  reachable state.
\<close>

theorem root_always_expanded:
  "Set_has (expandedFolders (createInitialState treeView' listView')) ''/'' \<and>
   toggleFolderExpansion env s ''/'' forceState = (Completed, s) \<and>
   (reachable env s' \<longrightarrow> Set_has (expandedFolders s') ''/'')"
  by (simp add: Set_has_def createInitialState_def toggleFolderExpansion_def reachable_root)

lemma stateToggledTwice_value:
  "expandedFolders stateToggledTwice = [''/'']"
  by (simp add: stateToggledTwice_def toggle_folders buildPath_def createInitialState_def
        Set_has_def Set_add_def Set_delete_def)

theorem root_always_expanded_witness:
  "reachable envListing stateToggledTwice \<and>
   Set_has (expandedFolders stateToggledTwice) ''/'' \<and>
   expandedFolders stateToggledTwice = [''/'']"
proof -
  have "reachable envListing stateToggledTwice"
    unfolding stateToggledTwice_def by (intro reachable.toggled reachable.created)
  then show ?thesis
    using root_always_expanded [of emptyDiv emptyDiv envListing stateToggledTwice None stateToggledTwice]
      stateToggledTwice_value by simp
qed

text \<open>Without the restriction on the paths the root can be lost: toggling the empty path twice.\<close>

lemma root_lost_on_empty_path:
  "expandedFolders
     (snd (toggleFolderExpansion env
             (snd (toggleFolderExpansion env (createInitialState treeView' listView') [] None))
             [] None)) = []"
  by (simp add: toggle_folders createInitialState_def Set_has_def Set_add_def Set_delete_def)


section \<open>Results: selecting from the list view\<close>













lemmas page_defs =
  handleFolderSelect_def Let_def fetchFolderContents_def createInitialState_def
  updateListView_def expandTreeToPath_def pathParts_def split_def buildPath_def
  toggleFolderExpansion_def Set_has_def Set_add_def Set_delete_def querySelectorDataPath_def
  cssPlain_def querySelector_def updateListViewExpansion_def querySelectorAll_forEach_def
  updateSelection_def byClass_def byClasses_def byTag_def append'_def clearInnerHTML_def
  createElement_def noProps_def createFolderIcon_def createFileIcon_def createIcon_def
  orDashes_def classList_toggle_def classList_add_def classList_remove_def
  removeExpandedFolder_def children_def

text \<open>
  The paths that the list view selects are \<open>/\<close> or \<open>/\<close> followed by one or more non-empty
  segments separated by \<open>/\<close>: the parent row passes what \<^verbatim>\<open>getParentPath\<close> returns, which
  always has this form, and a folder row what \<^verbatim>\<open>buildPath\<close> makes of the entry's name and
  the current path, which has this form when the current path has it and the name is a
  file name (not empty, without \<open>/\<close>).
\<close>

lemma splitOn_segments: "seg \<in> set (splitOn sep s) \<Longrightarrow> sep \<notin> set seg"
proof (induction s arbitrary: seg)
  case Nil
  then show ?case by simp
next
  case (Cons c s)
  then show ?case
    by (cases "splitOn sep s") (auto split: if_splits)
qed

lemma pathParts_segments: "\<forall>seg \<in> set (pathParts p). seg \<noteq> [] \<and> CHR ''/'' \<notin> set seg"
  by (auto simp: pathParts_def split_def dest: splitOn_segments)

lemma normalPath_join:
  assumes "\<forall>seg \<in> set segs. seg \<noteq> [] \<and> CHR ''/'' \<notin> set seg"
  shows "normalPath (if segs = [] then ''/'' else ''/'' @ join segs)"
  using pathParts_slash_join [OF assms] by (simp add: normalPath_def)

lemma normalPath_segments:
  assumes "normalPath p"
  shows "\<exists>segs. (\<forall>seg \<in> set segs. seg \<noteq> [] \<and> CHR ''/'' \<notin> set seg) \<and>
                p = (if segs = [] then ''/'' else ''/'' @ join segs)"
proof (cases "p = ''/''")
  case True
  then show ?thesis by (intro exI [of _ "[]"]) simp
next
  case False
  then have "pathParts p \<noteq> []" "p = ''/'' @ join (pathParts p)"
    using assms by (simp_all add: normalPath_def)
  then show ?thesis
    using pathParts_segments [of p] by (intro exI [of _ "pathParts p"]) simp
qed

lemma getParentPath_normal: "normalPath (getParentPath q)"
proof -
  have "\<forall>seg \<in> set (butlast (pathParts q)). seg \<noteq> [] \<and> CHR ''/'' \<notin> set seg"
    using pathParts_segments [of q] by (auto dest: in_set_butlastD)
  from normalPath_join [OF this] show ?thesis
    by (auto simp: getParentPath_def Let_def normalPath_def)
qed

lemma buildPath_normal:
  assumes "normalPath parentPath" "nm \<noteq> []" "CHR ''/'' \<notin> set nm"
  shows "normalPath (buildPath nm parentPath)"
proof -
  from normalPath_segments [OF assms(1)] obtain segs where
    segs: "\<forall>seg \<in> set segs. seg \<noteq> [] \<and> CHR ''/'' \<notin> set seg"
    and parent: "parentPath = (if segs = [] then ''/'' else ''/'' @ join segs)"
    by blast
  have all: "\<forall>seg \<in> set (segs @ [nm]). seg \<noteq> [] \<and> CHR ''/'' \<notin> set seg"
    using assms(2,3) segs by auto
  have "buildPath nm parentPath = ''/'' @ join (segs @ [nm])"
  proof (cases "segs = []")
    case True
    then show ?thesis using parent by (simp add: buildPath_def)
  next
    case False
    then have "join segs \<noteq> []" using segs join_eq_Nil by blast
    then show ?thesis using parent False by (simp add: buildPath_def join_snoc)
  qed
  then show ?thesis
    using normalPath_join [OF all] by simp
qed




section \<open>Results: lazy loading of the tree\<close>

lemma childNodes_setChildNodes: "isElement n \<Longrightarrow> childNodes (setChildNodes ks n) = ks"
  by (cases n) auto

lemma isElement_setChildNodes [simp]: "isElement (setChildNodes ks n) = isElement n"
  by (cases n) auto

lemma isElement_if_children: "i < length (childNodes n) \<Longrightarrow> isElement n"
  by (cases n) auto

lemma isElement_updateAt:
  "(\<And>n. isElement (f n) = isElement n) \<Longrightarrow> isElement (updateAt pos f t) = isElement t"
  by (cases pos) auto

lemma length_filter_update:
  "j < length xs \<Longrightarrow> P u = P (xs ! j) \<Longrightarrow>
   length (filter P (xs[j := u])) = length (filter P xs)"
proof (induction xs arbitrary: j)
  case Nil
  then show ?case by simp
next
  case (Cons x xs)
  then show ?case by (cases j) auto
qed

lemma childCount_updateAt:
  assumes kids: "\<And>n. childNodes (f n) = childNodes n"
    and elem: "\<And>n. isElement (f n) = isElement n"
  shows "childCount (updateAt pos f t) q = childCount t q"
proof (induction pos arbitrary: t q)
  case Nil
  show ?case
    by (cases q) (simp_all add: childCount_def children_def kids)
next
  case (Cons j pos)
  show ?case
  proof (cases "j < length (childNodes t)")
    case False
    then show ?thesis by simp
  next
    case True
    let ?u = "updateAt pos f (childNodes t ! j)"
    have el: "isElement t" using True by (rule isElement_if_children)
    have upd: "updateAt (j # pos) f t = setChildNodes ((childNodes t)[j := ?u]) t"
      using True by simp
    have kids': "childNodes (updateAt (j # pos) f t) = (childNodes t)[j := ?u]"
      unfolding upd using el by (rule childNodes_setChildNodes)
    show ?thesis
    proof (cases q)
      case Nil
      have "isElement ?u = isElement (childNodes t ! j)"
        using elem by (rule isElement_updateAt)
      then show ?thesis
        using Nil True
        by (simp add: childCount_def children_def kids' length_filter_update del: updateAt.simps)
    next
      case (Cons i q')
      show ?thesis
      proof (cases "i = j")
        case True
        then show ?thesis
          using Cons \<open>j < length (childNodes t)\<close> Cons.IH [of "childNodes t ! j" q']
          by (simp add: childCount_def kids' del: updateAt.simps)
      next
        case False
        then show ?thesis
          using Cons by (simp add: childCount_def kids' del: updateAt.simps)
      qed
    qed
  qed
qed

lemma emptyAt_childCount: "emptyAt el pos = (childCount el pos = Some 0)"
  by (auto simp: emptyAt_def childCount_def split: option.splits)

lemma nodeAt_childCount: "(nodeAt el pos = None) = (childCount el pos = None)"
  by (simp add: childCount_def)

lemma toggle_keeps_kids:
  "childNodes (classList_toggle c b n) = childNodes n"
  "isElement (classList_toggle c b n) = isElement n"
  by (cases n; simp add: classList_toggle_def classList_add_def classList_remove_def)+

lemma nodeAt_append:
  "nodeAt t (p @ q) = (case nodeAt t p of None \<Rightarrow> None | Some n \<Rightarrow> nodeAt n q)"
  by (induction p arbitrary: t) auto

lemma nodeAt_updateAt_same:
  "nodeAt t pos = Some c \<Longrightarrow> nodeAt (updateAt pos f t) pos = Some (f c)"
proof (induction pos arbitrary: t)
  case Nil
  then show ?case by simp
next
  case (Cons j pos)
  then have j: "j < length (childNodes t)" by (simp split: if_splits)
  then have "isElement t" by (rule isElement_if_children)
  then show ?case
    using Cons j by (simp add: childNodes_setChildNodes)
qed

lemma queryIn_valid:
  "queryIn sel ns = Some pos \<Longrightarrow>
   \<exists>i rest. pos = i # rest \<and> i < length ns \<and> nodeAt (ns ! i) rest \<noteq> None"
proof (induction sel ns arbitrary: pos rule: queryIn.induct)
  case (1 sel)
  then show ?case by simp
next
  case (2 sel t ns)
  then obtain pos' where p: "queryIn sel ns = Some pos'" "shift (Some pos') = Some pos"
    by (cases "queryIn sel ns") auto
  from 2(1) [OF p(1)] obtain i rest where "pos' = i # rest" "i < length ns" "nodeAt (ns ! i) rest \<noteq> None"
    by blast
  then show ?case using p(2) by auto
next
  case (3 sel tag cls sty dp lis kids ns)
  show ?case
  proof (cases "sel (Element tag cls sty dp lis kids)")
    case True
    then show ?thesis using 3(3) by auto
  next
    case False
    show ?thesis
    proof (cases "queryIn sel kids")
      case (Some pos')
      from 3(1) [OF False Some] obtain i rest where
        "pos' = i # rest" "i < length kids" "nodeAt (kids ! i) rest \<noteq> None" by blast
      then show ?thesis using 3(3) False Some by auto
    next
      case None
      then obtain pos' where p: "queryIn sel ns = Some pos'" "shift (Some pos') = Some pos"
        using 3(3) False by (cases "queryIn sel ns") auto
      from 3(2) [OF False None p(1)] obtain i rest where
        "pos' = i # rest" "i < length ns" "nodeAt (ns ! i) rest \<noteq> None" by blast
      then show ?thesis using p(2) by auto
    qed
  qed
qed

lemma querySelector_valid: "querySelector sel el = Some pos \<Longrightarrow> nodeAt el pos \<noteq> None"
  by (auto simp: querySelector_def dest!: queryIn_valid)


lemma fetched_after_fetch:
  "fetched (snd (case fetchFolderContents env s path of
                   (None, s) \<Rightarrow> (Threw Rejected, s)
                 | (Some data, s) \<Rightarrow>
                     andThen (updateTreeView s data pe lv pp)
                       (\<lambda>s. (Completed, updateListViewExpansion s)))) = fetched s @ [path]"
proof (cases "respond env (fetched s) path")
  case None
  then show ?thesis by (simp add: fetchFolderContents_def)
next
  case (Some data)
  have "fetched (snd (andThen (updateTreeView (s\<lparr>fetched := fetched s @ [path]\<rparr>) data pe lv pp)
                       (\<lambda>s. (Completed, updateListViewExpansion s)))) = fetched s @ [path]"
    by (rule andThen_snd [where P = "\<lambda>s'. fetched s' = fetched s @ [path]"])
       (simp_all add: updateTreeView_frame updateListViewExpansion_frame)
  then show ?thesis using Some by (simp add: fetchFolderContents_def)
qed

lemma toggle_unfold:
  assumes "path \<noteq> ''/''"
    and "sh = (case forceState of Some b \<Rightarrow> b | None \<Rightarrow> \<not> Set_has (expandedFolders s) path)"
    and "s1 = (if sh then s\<lparr>expandedFolders := Set_add path (expandedFolders s)\<rparr>
               else removeExpandedFolder s path)"
  shows "toggleFolderExpansion env s path forceState =
     (case querySelectorDataPath env path (treeView s1) of
        None \<Rightarrow> (Threw SyntaxError, s1)
      | Some None \<Rightarrow> (Completed, updateListViewExpansion s1)
      | Some (Some ti) \<Rightarrow>
          (case nodeAt (treeView s1) ti of
             None \<Rightarrow> (Completed, updateListViewExpansion s1)
           | Some item \<Rightarrow>
               (let t3 = (case querySelector (byClass ''folder-icon'') item of
                            None \<Rightarrow> updateAt ti (classList_toggle ''open'' sh) (treeView s1)
                          | Some ic \<Rightarrow>
                              updateAt (ti @ ic) (classList_toggle ''open'' sh)
                                (updateAt ti (classList_toggle ''open'' sh) (treeView s1)));
                    s3 = s1\<lparr>treeView := t3\<rparr>
                in case querySelector (byClass ''tree-children'') item of
                     None \<Rightarrow> (Completed, updateListViewExpansion s3)
                   | Some cc \<Rightarrow>
                       (if sh \<and> (case nodeAt t3 (ti @ cc) of
                                    None \<Rightarrow> False
                                  | Some c \<Rightarrow> length (children c) = 0)
                        then (case fetchFolderContents env s3 path of
                                (None, s) \<Rightarrow> (Threw Rejected, s)
                              | (Some data, s) \<Rightarrow>
                                  andThen
                                    (updateTreeView s data (ti @ cc) (length (pathParts path)) path)
                                    (\<lambda>s. (Completed, updateListViewExpansion s)))
                        else if \<not> sh
                        then (Completed,
                              updateListViewExpansion
                                (s3\<lparr>treeView := updateAt (ti @ cc) clearInnerHTML t3\<rparr>))
                        else (Completed, updateListViewExpansion s3)))))"
  unfolding toggleFolderExpansion_def Let_def assms(2,3) [symmetric]
  using assms(1) by (simp split: option.splits)

text \<open>
  C5, amended. Children are fetched lazily, on expand only: for every path other than
  \<open>/\<close> that holds no double quote, backslash, line break or null character,
  \<^verbatim>\<open>toggleFolderExpansion\<close> requests the contents of the path if and only if it is
  expanding and the child container of the path's tree item exists and has no child
  elements, and it requests nothing else; when collapsing it requests nothing and
  leaves the child container, if there is one, empty.
\<close>

theorem toggleFolderExpansion_fetch:
  assumes notRoot: "path \<noteq> ''/''" and plain: "cssPlain path"
  shows "let shouldExpand = (case forceState of Some b \<Rightarrow> b
                             | None \<Rightarrow> \<not> Set_has (expandedFolders s) path);
             s' = snd (toggleFolderExpansion env s path forceState)
         in fetched s' =
              fetched s @
              (if shouldExpand \<and>
                  (case treeChildContainer s path of
                     None \<Rightarrow> False
                   | Some c \<Rightarrow> emptyAt (treeView s) c)
               then [path] else []) \<and>
            (\<not> shouldExpand \<longrightarrow>
               fetched s' = fetched s \<and>
               (\<forall>c. treeChildContainer s path = Some c \<longrightarrow> emptyAt (treeView s') c))"
proof -
  define sh where "sh = (case forceState of Some b \<Rightarrow> b
                         | None \<Rightarrow> \<not> Set_has (expandedFolders s) path)"
  define s1 where "s1 = (if sh then s\<lparr>expandedFolders := Set_add path (expandedFolders s)\<rparr>
                         else removeExpandedFolder s path)"
  define sel where "sel = (\<lambda>n. isElement n \<and> dataPath n = Some path)"
  define tog where "tog = classList_toggle ''open'' sh"
  have s1: "treeView s1 = treeView s" "fetched s1 = fetched s"
    by (simp_all add: s1_def removeExpandedFolder_def)
  have q: "querySelectorDataPath env path (treeView s1) = Some (querySelector sel (treeView s))"
    using plain by (simp add: querySelectorDataPath_def s1 sel_def)
  have tog_cc: "childCount (updateAt pos tog t) c = childCount t c" for pos t c
    unfolding tog_def by (rule childCount_updateAt) (simp_all add: toggle_keeps_kids)
  let ?r = "toggleFolderExpansion env s path forceState"
  note unfold = toggle_unfold [OF notRoot sh_def s1_def, of env]
  have goal: "fetched (snd ?r) =
                fetched s @
                (if sh \<and> (case treeChildContainer s path of
                             None \<Rightarrow> False
                           | Some c \<Rightarrow> emptyAt (treeView s) c)
                 then [path] else []) \<and>
              (\<not> sh \<longrightarrow>
                 fetched (snd ?r) = fetched s \<and>
                 (\<forall>c. treeChildContainer s path = Some c \<longrightarrow> emptyAt (treeView (snd ?r)) c))"
  proof (cases "querySelector sel (treeView s)")
    case None
    then have "?r = (Completed, updateListViewExpansion s1)"
      using q by (simp add: unfold)
    moreover have "treeChildContainer s path = None"
      using None by (simp add: treeChildContainer_def sel_def)
    ultimately show ?thesis
      by (simp add: updateListViewExpansion_frame s1)
  next
    case (Some ti)
    show ?thesis
    proof (cases "nodeAt (treeView s) ti")
      case None
      then have "?r = (Completed, updateListViewExpansion s1)"
        using q Some by (simp add: unfold s1)
      moreover have "treeChildContainer s path = None"
        using None Some by (simp add: treeChildContainer_def sel_def)
      ultimately show ?thesis
        by (simp add: updateListViewExpansion_frame s1)
    next
      case item: (Some item)
      define t3 where "t3 =
        (case querySelector (byClass ''folder-icon'') item of
           None \<Rightarrow> updateAt ti tog (treeView s)
         | Some ic \<Rightarrow> updateAt (ti @ ic) tog (updateAt ti tog (treeView s)))"
      define s3 where "s3 = s1\<lparr>treeView := t3\<rparr>"
      have t3_cc: "childCount t3 c = childCount (treeView s) c" for c
        unfolding t3_def by (simp add: tog_cc split: option.splits)
      have s3: "fetched s3 = fetched s" "treeView s3 = t3"
        by (simp_all add: s3_def s1)
      show ?thesis
      proof (cases "querySelector (byClass ''tree-children'') item")
        case None
        then have "?r = (Completed, updateListViewExpansion s3)"
          using q Some item
          by (simp add: unfold Let_def s1 s3_def t3_def tog_def split: option.splits)
        moreover have "treeChildContainer s path = None"
          using None Some item by (simp add: treeChildContainer_def sel_def)
        ultimately show ?thesis
          by (simp add: updateListViewExpansion_frame s3)
      next
        case cc: (Some cc)
        have tcc: "treeChildContainer s path = Some (ti @ cc)"
          using cc Some item by (simp add: treeChildContainer_def sel_def)
        have ex: "nodeAt (treeView s) (ti @ cc) \<noteq> None"
          using querySelector_valid [OF cc] item by (simp add: nodeAt_append)
        have empty3: "(case nodeAt t3 (ti @ cc) of None \<Rightarrow> False
                       | Some c \<Rightarrow> length (children c) = 0) = emptyAt (treeView s) (ti @ cc)"
        proof -
          have "emptyAt t3 (ti @ cc) = emptyAt (treeView s) (ti @ cc)"
            by (simp add: emptyAt_childCount t3_cc)
          then show ?thesis by (simp add: emptyAt_def)
        qed
        have r: "?r =
          (if sh \<and> emptyAt (treeView s) (ti @ cc)
           then (case fetchFolderContents env s3 path of
                   (None, s) \<Rightarrow> (Threw Rejected, s)
                 | (Some data, s) \<Rightarrow>
                     andThen (updateTreeView s data (ti @ cc) (length (pathParts path)) path)
                       (\<lambda>s. (Completed, updateListViewExpansion s)))
           else if \<not> sh
           then (Completed,
                 updateListViewExpansion (s3\<lparr>treeView := updateAt (ti @ cc) clearInnerHTML t3\<rparr>))
           else (Completed, updateListViewExpansion s3))"
          using q Some item cc empty3
          by (simp add: unfold Let_def s1 s3_def t3_def tog_def split: option.splits)
        show ?thesis
        proof (cases "sh \<and> emptyAt (treeView s) (ti @ cc)")
          case True
          then show ?thesis
            using r tcc by (simp add: s3 fetched_after_fetch)
        next
          case False
          show ?thesis
          proof (cases sh)
            case True
            then show ?thesis
              using r tcc False by (simp add: updateListViewExpansion_frame s3)
          next
            case nsh: False
            from ex obtain c3 where c3: "nodeAt t3 (ti @ cc) = Some c3"
              using t3_cc [of "ti @ cc"] by (auto simp: childCount_def)
            have "nodeAt (updateAt (ti @ cc) clearInnerHTML t3) (ti @ cc) = Some (clearInnerHTML c3)"
              using c3 by (rule nodeAt_updateAt_same)
            moreover have "children (clearInnerHTML c3) = []"
              by (cases c3) (simp_all add: clearInnerHTML_def children_def)
            ultimately have "emptyAt (updateAt (ti @ cc) clearInnerHTML t3) (ti @ cc)"
              by (simp add: emptyAt_def)
            then show ?thesis
              using r tcc nsh by (simp add: updateListViewExpansion_frame s3)
          qed
        qed
      qed
    qed
  qed
  show ?thesis
    unfolding Let_def sh_def [symmetric] by (rule goal)
qed


lemmas tree_defs =
  updateTreeView_def treeItem_def rootFolder_def init_def emptyAt_def treeChildContainer_def
  stateInitial_def emptyDiv_def envListing_def

lemma decimal_1: "decimal (Suc 0) = ''1''"
  by (simp add: decimal.simps)

lemma stateQuote_tree:
  "treeChildContainer stateQuote (buildPath quoteName ''/'') = Some [0, 1, 0, 1]"
  "emptyAt (treeView stateQuote) [0, 1, 0, 1]"
  "expandedFolders stateQuote = [''/'']" "fetched stateQuote = []"
  by (simp_all add: stateQuote_def quoteName_def page_defs tree_defs decimal_1)

text \<open>
  C5, as stated, speaks of every folder path. The path is put into the selector
  unescaped: for the folder \<open>a"b\<close> at the root, whose tree item exists with an empty child
  container, the selector text is not a valid selector, \<^verbatim>\<open>querySelector\<close> throws, and
  expanding requests nothing.
\<close>

theorem toggleFolderExpansion_fetch_counterexample:
  "buildPath quoteName ''/'' \<noteq> ''/'' \<and>
   \<not> Set_has (expandedFolders stateQuote) (buildPath quoteName ''/'') \<and>
   treeChildContainer stateQuote (buildPath quoteName ''/'') = Some [0, 1, 0, 1] \<and>
   emptyAt (treeView stateQuote) [0, 1, 0, 1] \<and>
   fst (toggleFolderExpansion envListing stateQuote (buildPath quoteName ''/'') None) =
     Threw SyntaxError \<and>
   fetched (snd (toggleFolderExpansion envListing stateQuote (buildPath quoteName ''/'') None)) =
     fetched stateQuote"
proof -
  have "\<not> cssPlain (buildPath quoteName ''/'')"
    by (simp add: cssPlain_def buildPath_def quoteName_def)
  then have "toggleFolderExpansion envListing stateQuote (buildPath quoteName ''/'') None =
     (Threw SyntaxError, stateQuote\<lparr>expandedFolders := [''/'', buildPath quoteName ''/'']\<rparr>)"
    by (simp add: toggleFolderExpansion_def Let_def querySelectorDataPath_def envListing_def
          stateQuote_tree Set_has_def Set_add_def buildPath_def quoteName_def)
  moreover have "buildPath quoteName ''/'' \<noteq> ''/''"
    "\<not> Set_has (expandedFolders stateQuote) (buildPath quoteName ''/'')"
    by (simp_all add: stateQuote_tree Set_has_def buildPath_def quoteName_def)
  ultimately show ?thesis
    using stateQuote_tree by simp
qed

lemma stateListed_tree:
  "treeChildContainer stateListed ''/docs'' = Some [0, 1, 0, 1]"
  "emptyAt (treeView stateListed) [0, 1, 0, 1]"
  "expandedFolders stateListed = [''/'']" "fetched stateListed = [''/'']"
  by (simp_all add: stateListed_def page_defs tree_defs decimal_1 createListRow_shape)

theorem toggleFolderExpansion_fetch_witness:
  "''/docs'' \<noteq> ''/'' \<and> cssPlain ''/docs'' \<and>
   \<not> Set_has (expandedFolders stateListed) ''/docs'' \<and>
   treeChildContainer stateListed ''/docs'' = Some [0, 1, 0, 1] \<and>
   emptyAt (treeView stateListed) [0, 1, 0, 1] \<and>
   fetched (snd (toggleFolderExpansion envListing stateListed ''/docs'' None)) =
     fetched stateListed @ [''/docs''] \<and>
   fetched (snd (toggleFolderExpansion envListing stateListed ''/docs'' (Some False))) =
     fetched stateListed \<and>
   emptyAt (treeView (snd (toggleFolderExpansion envListing stateListed ''/docs'' (Some False))))
     [0, 1, 0, 1]"
proof -
  have pre: "''/docs'' \<noteq> ''/''" "cssPlain ''/docs''"
    "\<not> Set_has (expandedFolders stateListed) ''/docs''"
    by (simp_all add: cssPlain_def stateListed_tree Set_has_def)
  from toggleFolderExpansion_fetch [OF pre(1,2), where forceState = None and s = stateListed and env = envListing] pre(3) stateListed_tree
  have 1: "fetched (snd (toggleFolderExpansion envListing stateListed ''/docs'' None)) =
             fetched stateListed @ [''/docs'']"
    by (simp add: Let_def)
  from toggleFolderExpansion_fetch [OF pre(1,2), where forceState = "Some False" and s = stateListed and env = envListing] stateListed_tree
  have 2: "fetched (snd (toggleFolderExpansion envListing stateListed ''/docs'' (Some False))) =
             fetched stateListed \<and>
           emptyAt (treeView (snd (toggleFolderExpansion envListing stateListed ''/docs'' (Some False))))
             [0, 1, 0, 1]"
    by (simp add: Let_def)
  show ?thesis
    using pre 1 2 stateListed_tree by simp
qed


end
